theory Spec2Isabelle
  imports Main
begin

section \<open>JavaScript values and exceptions\<close>

text \<open>
  Strings are lists of 8-bit characters: the code units of the ASCII / Latin-1 range.
  Text outside that range is not represented.

  A thrown value is either the repository's own \<^verbatim>\<open>ApiError\<close> (\<^verbatim>\<open>src/lib/api.ts\<close>), which
  carries an HTTP status, or any other exception object of the platform, of which the code
  reads only \<^verbatim>\<open>name\<close> and \<^verbatim>\<open>message\<close> (a \<^verbatim>\<open>TypeError\<close>, a \<^verbatim>\<open>SyntaxError\<close>, the
  \<^verbatim>\<open>DOMException\<close> named \<^verbatim>\<open>AbortError\<close> of an aborted fetch, ...).
\<close>

datatype js_error =
    ApiError nat string
  | OtherError string string

fun error_name :: "js_error \<Rightarrow> string" where
  "error_name (ApiError st msg) = ''ApiError''"
| "error_name (OtherError n msg) = n"

fun error_message :: "js_error \<Rightarrow> string" where
  "error_message (ApiError st msg) = msg"
| "error_message (OtherError n msg) = msg"

text \<open>\<^verbatim>\<open>e instanceof ApiError && e.status === 404\<close>\<close>

fun is_ApiError_404 :: "js_error \<Rightarrow> bool" where
  "is_ApiError_404 (ApiError st msg) = (st = 404)"
| "is_ApiError_404 (OtherError n msg) = False"

definition AbortError :: js_error where
  "AbortError = OtherError ''AbortError'' ''The operation was aborted.''"

section \<open>Session storage (\<^verbatim>\<open>src/lib/storage.ts\<close>)\<close>

text \<open>
  The platform object \<^verbatim>\<open>window.sessionStorage\<close>. Reading the property throws a
  \<^verbatim>\<open>SecurityError\<close> where storage is disabled or the context is sandboxed (then every
  operation of the wrapper fails at that point); \<^verbatim>\<open>setItem\<close> throws a
  \<^verbatim>\<open>QuotaExceededError\<close> when the quota is used up.
\<close>

record sessionStorage =
  accessible :: bool
  quotaExceeded :: bool
  items :: "string \<rightharpoonup> string"

definition SecurityError :: js_error where
  "SecurityError = OtherError ''SecurityError'' ''The operation is insecure.''"

definition QuotaExceededError :: js_error where
  "QuotaExceededError = OtherError ''QuotaExceededError'' ''The quota has been exceeded.''"

definition getItem :: "sessionStorage \<Rightarrow> string \<Rightarrow> js_error + string option" where
  "getItem ss k = (if accessible ss then Inr (items ss k) else Inl SecurityError)"

definition setItem :: "sessionStorage \<Rightarrow> string \<Rightarrow> string \<Rightarrow> js_error + sessionStorage" where
  "setItem ss k v =
     (if \<not> accessible ss then Inl SecurityError
      else if quotaExceeded ss then Inl QuotaExceededError
      else Inr (ss\<lparr>items := (items ss)(k \<mapsto> v)\<rparr>))"

definition removeItem :: "sessionStorage \<Rightarrow> string \<Rightarrow> js_error + sessionStorage" where
  "removeItem ss k =
     (if accessible ss then Inr (ss\<lparr>items := (items ss)(k := None)\<rparr>) else Inl SecurityError)"

definition PREFIX :: string where
  "PREFIX = ''radikari_chat''"

definition getThreadKey :: "string \<Rightarrow> string" where
  "getThreadKey tenantId = PREFIX @ '':thread_id:'' @ tenantId"

text \<open>
  The three operations of \<^verbatim>\<open>Storage\<close>. Each wraps its platform call in \<^verbatim>\<open>try\<close> /
  \<^verbatim>\<open>catch\<close>; the result is a completion: \<open>Inl e\<close> would be an exception reaching the
  caller, \<open>Inr\<close> a normal return (for the two writers, with the storage as they leave it).
\<close>

definition getThreadId :: "sessionStorage \<Rightarrow> string \<Rightarrow> js_error + string option" where
  "getThreadId ss tenantId =
     (case getItem ss (getThreadKey tenantId) of
        Inr v \<Rightarrow> Inr v
      | Inl e \<Rightarrow> Inr None)"

definition setThreadId :: "sessionStorage \<Rightarrow> string \<Rightarrow> string \<Rightarrow> js_error + sessionStorage" where
  "setThreadId ss tenantId threadId =
     (case setItem ss (getThreadKey tenantId) threadId of
        Inr ss' \<Rightarrow> Inr ss'
      | Inl e \<Rightarrow> Inr ss)"

definition clearThreadId :: "sessionStorage \<Rightarrow> string \<Rightarrow> js_error + sessionStorage" where
  "clearThreadId ss tenantId =
     (case removeItem ss (getThreadKey tenantId) of
        Inr ss' \<Rightarrow> Inr ss'
      | Inl e \<Rightarrow> Inr ss)"

section \<open>JSON values as the code observes them\<close>

text \<open>
  The value \<^verbatim>\<open>JSON.parse\<close> returns. An object keeps its members in source order; a
  property read takes the last member of that name, as \<^verbatim>\<open>JSON.parse\<close> does with a
  repeated key. Numbers are the integers (a double holds them exactly up to \<open>2^53\<close>);
  other doubles, and their printing, are floating point and are not represented.
  \<open>None\<close> of type \<open>json option\<close> is \<^verbatim>\<open>undefined\<close>.
\<close>

datatype json =
    JNull
  | JBool bool
  | JNumber int
  | JString string
  | JArray "json list"
  | JObject "(string \<times> json) list"

text \<open>\<^verbatim>\<open>data.key\<close> for a value that is not \<^verbatim>\<open>null\<close> (on \<^verbatim>\<open>null\<close> the read throws a
  \<^verbatim>\<open>TypeError\<close>, which every caller below handles before it reads). None of the names read
  by this program (\<^verbatim>\<open>type\<close>, \<^verbatim>\<open>delta\<close>, \<^verbatim>\<open>content\<close>, \<^verbatim>\<open>threadId\<close>) is a property of a
  string, number, boolean or array.\<close>

fun get_prop :: "json \<Rightarrow> string \<Rightarrow> json option" where
  "get_prop (JObject kvs) k = map_of (rev kvs) k"
| "get_prop v k = None"

text \<open>Truthiness, as tested by \<^verbatim>\<open>!x\<close>, \<^verbatim>\<open>x && ...\<close> and \<^verbatim>\<open>if (x)\<close>.\<close>

fun truthy :: "json option \<Rightarrow> bool" where
  "truthy None = False"
| "truthy (Some JNull) = False"
| "truthy (Some (JBool b)) = b"
| "truthy (Some (JNumber n)) = (n \<noteq> 0)"
| "truthy (Some (JString s)) = (s \<noteq> [])"
| "truthy (Some (JArray vs)) = True"
| "truthy (Some (JObject kvs)) = True"

definition digit_char :: "nat \<Rightarrow> char" where
  "digit_char d = char_of (48 + d)"

function show_nat :: "nat \<Rightarrow> string" where
  "show_nat n = (if n < 10 then [digit_char n] else show_nat (n div 10) @ [digit_char (n mod 10)])"
  by pat_completeness auto
termination
  by (relation "measure id") auto

definition show_int :: "int \<Rightarrow> string" where
  "show_int i = (if i < 0 then CHR ''-'' # show_nat (nat (- i)) else show_nat (nat i))"

fun join :: "string \<Rightarrow> string list \<Rightarrow> string" where
  "join sep [] = []"
| "join sep [x] = x"
| "join sep (x # y # ys) = x @ sep @ join sep (y # ys)"

text \<open>\<^verbatim>\<open>ToString\<close>, as applied by \<^verbatim>\<open>+=\<close> on a string and by a template literal. An array
  prints its elements joined by commas, \<^verbatim>\<open>null\<close> elements as the empty string. An object
  prints as \<^verbatim>\<open>[object Object]\<close>; one with a member of its own named \<^verbatim>\<open>toString\<close>, for
  which the conversion throws a \<^verbatim>\<open>TypeError\<close> instead, is outside this function. Neither
  occurs for the string values of the frame and thread schemas.\<close>

fun to_string :: "json \<Rightarrow> string" where
  "to_string JNull = ''null''"
| "to_string (JBool b) = (if b then ''true'' else ''false'')"
| "to_string (JNumber n) = show_int n"
| "to_string (JString s) = s"
| "to_string (JArray vs) = join '','' (map (\<lambda>v. if v = JNull then [] else to_string v) vs)"
| "to_string (JObject kvs) = ''[object Object]''"

fun to_string_opt :: "json option \<Rightarrow> string" where
  "to_string_opt None = ''undefined''"
| "to_string_opt (Some v) = to_string v"

section \<open>A reading of \<^verbatim>\<open>JSON.parse\<close>\<close>

text \<open>
  \<^verbatim>\<open>JSON.parse\<close> is a built-in of the platform, so the decoder and the controller below
  take it as a parameter \<open>parse\<close>, with \<open>None\<close> for a thrown \<^verbatim>\<open>SyntaxError\<close>. To run
  them on concrete frames, \<open>JSON_parse\<close> reads the JSON grammar: objects, arrays,
  strings with their escapes, \<^verbatim>\<open>true\<close>, \<^verbatim>\<open>false\<close>, \<^verbatim>\<open>null\<close> and integer literals.
  It covers the texts of this model's values only: a literal with a fraction or an
  exponent, an integer beyond \<open>2^53\<close> and a \<^verbatim>\<open>\u\<close> escape above \<^verbatim>\<open>00FF\<close> denote values
  outside the model, and \<open>JSON_parse\<close> is \<open>None\<close> on them.
\<close>

datatype token =
    TLBrace | TRBrace | TLBracket | TRBracket | TColon | TComma
  | TString string | TNumber int | TTrue | TFalse | TNull

definition json_ws :: "char \<Rightarrow> bool" where
  "json_ws c = (c = CHR '' '' \<or> c = CHR 0x09 \<or> c = CHR 0x0A \<or> c = CHR 0x0D)"

definition is_digit :: "char \<Rightarrow> bool" where
  "is_digit c = (48 \<le> (of_char c :: nat) \<and> (of_char c :: nat) \<le> 57)"

definition hex_value :: "char \<Rightarrow> nat option" where
  "hex_value c =
     (let n = (of_char c :: nat) in
      if 48 \<le> n \<and> n \<le> 57 then Some (n - 48)
      else if 65 \<le> n \<and> n \<le> 70 then Some (n - 55)
      else if 97 \<le> n \<and> n \<le> 102 then Some (n - 87)
      else None)"

text \<open>The character of \<^verbatim>\<open>\uXXXX\<close>, from its four hex digits.\<close>

definition hex4 :: "string \<Rightarrow> char option" where
  "hex4 ds =
     (case map hex_value ds of
        [Some a, Some b, Some c, Some d] \<Rightarrow>
          (if a = 0 \<and> b = 0 then Some (char_of (16 * c + d)) else None)
      | _ \<Rightarrow> None)"

definition unescape :: "char \<Rightarrow> char option" where
  "unescape e =
     (if e = CHR 0x22 then Some (CHR 0x22)
      else if e = CHR 0x5C then Some (CHR 0x5C)
      else if e = CHR ''/'' then Some (CHR ''/'')
      else if e = CHR ''b'' then Some (CHR 0x08)
      else if e = CHR ''f'' then Some (CHR 0x0C)
      else if e = CHR ''n'' then Some (CHR 0x0A)
      else if e = CHR ''r'' then Some (CHR 0x0D)
      else if e = CHR ''t'' then Some (CHR 0x09)
      else None)"

text \<open>The rest of a string literal, after its opening quote: the string and what follows
  the closing quote.\<close>

fun lex_string :: "string \<Rightarrow> (string \<times> string) option" where
  "lex_string [] = None"
| "lex_string (c # cs) =
     (if c = CHR 0x22 then Some ([], cs)
      else if c = CHR 0x5C then
        (case cs of
           [] \<Rightarrow> None
         | e # cs' \<Rightarrow>
             if e = CHR ''u'' then
               (case hex4 (take 4 cs') of
                  None \<Rightarrow> None
                | Some ch \<Rightarrow> map_option (\<lambda>(s, r). (ch # s, r)) (lex_string (drop 4 cs')))
             else
               (case unescape e of
                  None \<Rightarrow> None
                | Some ch \<Rightarrow> map_option (\<lambda>(s, r). (ch # s, r)) (lex_string cs')))
      else if (of_char c :: nat) < 32 then None
      else map_option (\<lambda>(s, r). (c # s, r)) (lex_string cs))"

definition digits_value :: "string \<Rightarrow> int" where
  "digits_value ds = foldl (\<lambda>n c. 10 * n + ((of_char c :: int) - 48)) 0 ds"

text \<open>An integer literal from its digits: no leading zero, no fraction or exponent
  after it, and a magnitude a double holds exactly.\<close>

definition int_literal :: "bool \<Rightarrow> string \<Rightarrow> string \<Rightarrow> int option" where
  "int_literal neg ds rest =
     (if ds = [] then None
      else if hd ds = CHR ''0'' \<and> tl ds \<noteq> [] then None
      else if rest \<noteq> [] \<and> hd rest \<in> {CHR ''.'', CHR ''e'', CHR ''E''} then None
      else if 9007199254740992 < digits_value ds then None
      else Some (if neg then - digits_value ds else digits_value ds))"

lemma lex_string_shorter: "lex_string cs = Some (s, r) \<Longrightarrow> length r \<le> length cs"
proof (induction cs arbitrary: s r rule: lex_string.induct)
  case 1
  then show ?case by simp
next
  case (2 c cs)
  then show ?case
    by (fastforce split: if_splits list.splits option.splits)
qed

function lex :: "string \<Rightarrow> token list option" where
  "lex [] = Some []"
| "lex (c # cs) =
     (if json_ws c then lex cs
      else if c = CHR ''{'' then map_option ((#) TLBrace) (lex cs)
      else if c = CHR ''}'' then map_option ((#) TRBrace) (lex cs)
      else if c = CHR ''['' then map_option ((#) TLBracket) (lex cs)
      else if c = CHR '']'' then map_option ((#) TRBracket) (lex cs)
      else if c = CHR '':'' then map_option ((#) TColon) (lex cs)
      else if c = CHR '','' then map_option ((#) TComma) (lex cs)
      else if c = CHR 0x22 then
        (case lex_string cs of
           None \<Rightarrow> None
         | Some (s, rest) \<Rightarrow> map_option ((#) (TString s)) (lex rest))
      else if c = CHR ''t'' then
        (if take 3 cs = ''rue'' then map_option ((#) TTrue) (lex (drop 3 cs)) else None)
      else if c = CHR ''f'' then
        (if take 4 cs = ''alse'' then map_option ((#) TFalse) (lex (drop 4 cs)) else None)
      else if c = CHR ''n'' then
        (if take 3 cs = ''ull'' then map_option ((#) TNull) (lex (drop 3 cs)) else None)
      else if c = CHR ''-'' then
        (case int_literal True (takeWhile is_digit cs) (dropWhile is_digit cs) of
           None \<Rightarrow> None
         | Some n \<Rightarrow> map_option ((#) (TNumber n)) (lex (dropWhile is_digit cs)))
      else if is_digit c then
        (case int_literal False (c # takeWhile is_digit cs) (dropWhile is_digit cs) of
           None \<Rightarrow> None
         | Some n \<Rightarrow> map_option ((#) (TNumber n)) (lex (dropWhile is_digit cs)))
      else None)"
  by pat_completeness auto
termination
  by (relation "measure length")
     (auto simp: less_Suc_eq_le length_dropWhile_le dest: lex_string_shorter)

text \<open>The grammar over tokens, as a pushdown automaton: one step per token, the stack
  holding the arrays and objects that are still open.\<close>

datatype frame =
    FArr "json list"
  | FObj "(string \<times> json) list"
  | FKey "(string \<times> json) list" string

datatype mode = MValue | MFirst | MKey | MColon | MAfter | MDone json | MError

fun push_value :: "json \<Rightarrow> frame list \<Rightarrow> mode \<times> frame list" where
  "push_value v [] = (MDone v, [])"
| "push_value v (FArr vs # st) = (MAfter, FArr (vs @ [v]) # st)"
| "push_value v (FKey kvs k # st) = (MAfter, FObj (kvs @ [(k, v)]) # st)"
| "push_value v (FObj kvs # st) = (MError, [])"

fun start_value :: "token \<Rightarrow> frame list \<Rightarrow> mode \<times> frame list" where
  "start_value TLBracket st = (MFirst, FArr [] # st)"
| "start_value TLBrace st = (MFirst, FObj [] # st)"
| "start_value (TString s) st = push_value (JString s) st"
| "start_value (TNumber n) st = push_value (JNumber n) st"
| "start_value TTrue st = push_value (JBool True) st"
| "start_value TFalse st = push_value (JBool False) st"
| "start_value TNull st = push_value JNull st"
| "start_value t st = (MError, [])"

fun pda_step :: "mode \<times> frame list \<Rightarrow> token \<Rightarrow> mode \<times> frame list" where
  "pda_step (MValue, st) t = start_value t st"
| "pda_step (MFirst, FArr vs # st) t =
     (if t = TRBracket then push_value (JArray vs) st else start_value t (FArr vs # st))"
| "pda_step (MFirst, FObj kvs # st) t =
     (case t of
        TRBrace \<Rightarrow> push_value (JObject kvs) st
      | TString k \<Rightarrow> (MColon, FKey kvs k # st)
      | _ \<Rightarrow> (MError, []))"
| "pda_step (MKey, FObj kvs # st) t =
     (case t of TString k \<Rightarrow> (MColon, FKey kvs k # st) | _ \<Rightarrow> (MError, []))"
| "pda_step (MColon, st) t = (if t = TColon then (MValue, st) else (MError, []))"
| "pda_step (MAfter, FArr vs # st) t =
     (if t = TComma then (MValue, FArr vs # st)
      else if t = TRBracket then push_value (JArray vs) st
      else (MError, []))"
| "pda_step (MAfter, FObj kvs # st) t =
     (if t = TComma then (MKey, FObj kvs # st)
      else if t = TRBrace then push_value (JObject kvs) st
      else (MError, []))"
| "pda_step (m, st) t = (MError, [])"

definition parse_tokens :: "token list \<Rightarrow> json option" where
  "parse_tokens ts =
     (case foldl pda_step (MValue, []) ts of
        (MDone v, []) \<Rightarrow> Some v
      | _ \<Rightarrow> None)"

definition JSON_parse :: "string \<Rightarrow> json option" where
  "JSON_parse text = (case lex text of None \<Rightarrow> None | Some ts \<Rightarrow> parse_tokens ts)"

section \<open>The component and its surroundings\<close>

datatype role = User | Assistant | System

record ChatMessage =
  role :: role
  content :: string

text \<open>
  The fields of \<^verbatim>\<open>RadikariChat\<close> that the lifecycle reads or writes (the display fields
  \<^verbatim>\<open>lang\<close>, \<^verbatim>\<open>inline\<close>, \<^verbatim>\<open>isOpen\<close> and the styles play no part in it).
  \<open>abortController\<close> is \<open>None\<close> for \<^verbatim>\<open>null\<close> and \<open>Some aborted\<close> for a controller with
  the state of its signal.
\<close>

record RadikariChat =
  tenantId :: string
  apiBaseUrl :: string
  messages :: "ChatMessage list"
  isStreaming :: bool
  error :: "string option"
  inputValue :: string
  abortController :: "bool option"

text \<open>
  What the component runs in: the session storage of the tab, and a log of the transport
  calls issued so far, oldest first. The log is an observer added by the model (the code
  keeps none); it is what "exactly one call" and "before" are stated on.
\<close>

datatype call =
    CreateThreadCall string string
  | SendMessageStreamCall string string string string

record world = RadikariChat +
  session :: sessionStorage
  calls :: "call list"

fun is_create :: "call \<Rightarrow> bool" where
  "is_create (CreateThreadCall baseUrl tenant) = True"
| "is_create (SendMessageStreamCall baseUrl tenant threadId text) = False"

fun is_send :: "call \<Rightarrow> bool" where
  "is_send (CreateThreadCall baseUrl tenant) = False"
| "is_send (SendMessageStreamCall baseUrl tenant threadId text) = True"

text \<open>
  The body of a streaming response, as the reader delivers it: the chunks in order, each
  as the text \<^verbatim>\<open>decoder.decode(value)\<close> returns for it, then either the end of the stream
  or a rejected \<^verbatim>\<open>read()\<close>. \<open>Teardown\<close> marks a point where, while a \<^verbatim>\<open>read()\<close> is
  awaited, the host removes the element and \<^verbatim>\<open>disconnectedCallback\<close> runs.
\<close>

datatype stream_event = Chunk string | Teardown

datatype stream_end = StreamDone | ReadError js_error

record body =
  events :: "stream_event list"
  ending :: stream_end

text \<open>
  What the server and the network answer to the two requests. \<open>CreateRejected e\<close> and
  \<open>SendRejected e\<close>: \<^verbatim>\<open>fetch\<close> rejects (network failure, or \<^verbatim>\<open>AbortError\<close>).
  \<open>CreateReplied st j\<close>: a response with status \<open>st\<close> whose \<^verbatim>\<open>json()\<close> gives \<open>j\<close>.
  \<open>SendReplied st txt b\<close>: a response with status \<open>st\<close>, whose \<^verbatim>\<open>text()\<close> gives \<open>txt\<close>
  and whose \<^verbatim>\<open>body\<close> is \<open>b\<close> (\<open>None\<close> for \<^verbatim>\<open>null\<close>). The \<open>n\<close>-th call of each kind
  (counted from 0) gets the \<open>n\<close>-th answer.
\<close>

datatype create_reply =
    CreateRejected js_error
  | CreateReplied nat "js_error + json"

datatype send_reply =
    SendRejected js_error
  | SendReplied nat "js_error + string" "body option"

record server =
  createReply :: "nat \<Rightarrow> create_reply"
  sendReply :: "nat \<Rightarrow> send_reply"

text \<open>\<^verbatim>\<open>response.ok\<close>\<close>

definition ok :: "nat \<Rightarrow> bool" where
  "ok st = (200 \<le> st \<and> st \<le> 299)"

section \<open>Transport client (\<^verbatim>\<open>src/lib/api.ts\<close>)\<close>

definition TypeError_null :: js_error where
  "TypeError_null = OtherError ''TypeError'' ''Cannot read properties of null''"

text \<open>\<^verbatim>\<open>ApiClient.createThread\<close>, from the answer to its \<^verbatim>\<open>fetch\<close>. It returns
  \<^verbatim>\<open>result.content\<close>.\<close>

definition createThread :: "create_reply \<Rightarrow> js_error + json" where
  "createThread reply =
     (case reply of
        CreateRejected e \<Rightarrow> Inl e
      | CreateReplied st j \<Rightarrow>
          if \<not> ok st then Inl (ApiError st ''Failed to create chat thread'')
          else
            (case j of
               Inl e \<Rightarrow> Inl e
             | Inr result \<Rightarrow>
                 if result = JNull then Inl TypeError_null
                 else
                   (case get_prop result ''content'' of
                      None \<Rightarrow> Inl (ApiError st ''Invalid thread creation response'')
                    | Some c \<Rightarrow>
                        if \<not> truthy (Some c)
                        then Inl (ApiError st ''Invalid thread creation response'')
                        else if \<not> truthy (get_prop c ''threadId'')
                        then Inl (ApiError st ''No threadId in response'')
                        else Inr c)))"

text \<open>\<^verbatim>\<open>ApiClient.sendMessageStream\<close>, from the answer to its \<^verbatim>\<open>fetch\<close>. On success it
  returns the response, of which the caller reads the body only.\<close>

definition sendMessageStream :: "send_reply \<Rightarrow> js_error + body option" where
  "sendMessageStream reply =
     (case reply of
        SendRejected e \<Rightarrow> Inl e
      | SendReplied st txt b \<Rightarrow>
          if st = 404 then Inl (ApiError 404 ''Thread expired or not found'')
          else if \<not> ok st then
            (case txt of
               Inl e \<Rightarrow> Inl e
             | Inr errorText \<Rightarrow>
                 Inl (ApiError st (if errorText = [] then ''Failed to send message'' else errorText)))
          else Inr b)"

section \<open>Stream decoder (\<^verbatim>\<open>_processStream\<close>)\<close>

text \<open>\<^verbatim>\<open>s.split(sep)\<close> for a one-character separator: always at least one piece.\<close>

fun split_on :: "char \<Rightarrow> string \<Rightarrow> string list" where
  "split_on sep [] = [[]]"
| "split_on sep (c # cs) =
     (if c = sep then [] # split_on sep cs
      else (case split_on sep cs of
              [] \<Rightarrow> [[c]]
            | l # ls \<Rightarrow> (c # l) # ls))"

definition newline :: char where
  "newline = CHR 0x0A"

text \<open>
  The body of the \<^verbatim>\<open>for\<close> loop, for one line. The state is the local \<^verbatim>\<open>assistantText\<close>
  and the component. A \<^verbatim>\<open>SyntaxError\<close> of \<^verbatim>\<open>JSON.parse\<close>, the \<^verbatim>\<open>TypeError\<close> of
  reading \<^verbatim>\<open>type\<close> from \<^verbatim>\<open>null\<close> and the \<^verbatim>\<open>TypeError\<close> of writing to a message that is
  not there all end in the \<^verbatim>\<open>catch\<close> of the line, which ignores them; the last one after
  \<^verbatim>\<open>assistantText\<close> has grown.
\<close>

definition processLine ::
  "(string \<Rightarrow> json option) \<Rightarrow> nat \<Rightarrow> string \<Rightarrow> string \<times> 'a world_scheme \<Rightarrow> string \<times> 'a world_scheme"
where
  "processLine parse msgIndex line st =
     (case st of (assistantText, w) \<Rightarrow>
        if take 6 line = ''data: '' then
          (case parse (drop 6 line) of
             None \<Rightarrow> (assistantText, w)
           | Some data \<Rightarrow>
               if data = JNull then (assistantText, w)
               else if get_prop data ''type'' = Some (JString ''text-delta'')
                       \<and> truthy (get_prop data ''delta'')
               then
                 (let assistantText' = assistantText @ to_string_opt (get_prop data ''delta'')
                  in if msgIndex < length (messages w)
                     then (assistantText',
                           w\<lparr>messages := (messages w)
                                [msgIndex := (messages w ! msgIndex)\<lparr>content := assistantText'\<rparr>]\<rparr>)
                     else (assistantText', w))
               else (assistantText, w))
        else (assistantText, w))"

text \<open>One chunk: split at newlines, each piece handled as a line, nothing kept for the
  next chunk.\<close>

definition processChunk ::
  "(string \<Rightarrow> json option) \<Rightarrow> nat \<Rightarrow> string \<Rightarrow> string \<times> 'a world_scheme \<Rightarrow> string \<times> 'a world_scheme"
where
  "processChunk parse msgIndex chunk st =
     foldl (\<lambda>st line. processLine parse msgIndex line st) st (split_on newline chunk)"

text \<open>\<^verbatim>\<open>disconnectedCallback\<close>: \<^verbatim>\<open>this.abortController?.abort()\<close>.\<close>

definition disconnectedCallback :: "'a world_scheme \<Rightarrow> 'a world_scheme" where
  "disconnectedCallback w =
     (case abortController w of
        None \<Rightarrow> w
      | Some a \<Rightarrow> w\<lparr>abortController := Some True\<rparr>)"

text \<open>
  The \<^verbatim>\<open>while (true)\<close> loop over \<^verbatim>\<open>reader.read()\<close>. The result is the exception the loop
  ends with, if any. After a teardown that aborted the signal, the pending \<^verbatim>\<open>read()\<close>
  rejects with \<^verbatim>\<open>AbortError\<close>.
\<close>

fun readLoop ::
  "(string \<Rightarrow> json option) \<Rightarrow> nat \<Rightarrow> stream_event list \<Rightarrow> stream_end
     \<Rightarrow> string \<times> 'a world_scheme \<Rightarrow> js_error option \<times> string \<times> 'a world_scheme"
where
  "readLoop parse msgIndex [] fin st =
     (case fin of StreamDone \<Rightarrow> (None, st) | ReadError e \<Rightarrow> (Some e, st))"
| "readLoop parse msgIndex (Chunk chunk # evs) fin st =
     readLoop parse msgIndex evs fin (processChunk parse msgIndex chunk st)"
| "readLoop parse msgIndex (Teardown # evs) fin st =
     (case st of (assistantText, w) \<Rightarrow>
        if abortController (disconnectedCallback w) = Some True
        then (Some AbortError, (assistantText, disconnectedCallback w))
        else readLoop parse msgIndex evs fin (assistantText, disconnectedCallback w))"

definition processStream ::
  "(string \<Rightarrow> json option) \<Rightarrow> body option \<Rightarrow> nat \<Rightarrow> 'a world_scheme
     \<Rightarrow> js_error option \<times> 'a world_scheme"
where
  "processStream parse response_body msgIndex w =
     (case response_body of
        None \<Rightarrow> (None, w)
      | Some b \<Rightarrow>
          (case readLoop parse msgIndex (events b) (ending b) ([], w) of
             (r, assistantText, w') \<Rightarrow> (r, w')))"

subsection \<open>The delta events of a stream\<close>

text \<open>
  The text a line contributes: the \<^verbatim>\<open>ToString\<close> of \<^verbatim>\<open>data.delta\<close> when the line passes
  the tests of the loop body (the \<^verbatim>\<open>data: \<close> marker, a payload that parses, the type
  \<^verbatim>\<open>text-delta\<close>, a truthy \<^verbatim>\<open>delta\<close>), nothing otherwise; and the texts of a chunk and
  of a sequence of chunks, in the order of the lines.
\<close>

definition lineDelta :: "(string \<Rightarrow> json option) \<Rightarrow> string \<Rightarrow> string option" where
  "lineDelta parse line =
     (if take 6 line = ''data: '' then
        (case parse (drop 6 line) of
           None \<Rightarrow> None
         | Some data \<Rightarrow>
             if get_prop data ''type'' = Some (JString ''text-delta'')
                \<and> truthy (get_prop data ''delta'')
             then Some (to_string_opt (get_prop data ''delta''))
             else None)
      else None)"

definition chunkDeltas :: "(string \<Rightarrow> json option) \<Rightarrow> string \<Rightarrow> string list" where
  "chunkDeltas parse chunk = List.map_filter (lineDelta parse) (split_on newline chunk)"

definition streamDeltas :: "(string \<Rightarrow> json option) \<Rightarrow> string list \<Rightarrow> string list" where
  "streamDeltas parse chunks = concat (map (chunkDeltas parse) chunks)"

text \<open>The two assignments a delta causes: \<^verbatim>\<open>assistantText += data.delta\<close> and
  \<^verbatim>\<open>this.messages[msgIndex].content = assistantText\<close>.\<close>

definition applyDelta ::
  "nat \<Rightarrow> string \<times> 'a world_scheme \<Rightarrow> string \<Rightarrow> string \<times> 'a world_scheme"
where
  "applyDelta msgIndex st d =
     (case st of (assistantText, w) \<Rightarrow>
        if msgIndex < length (messages w)
        then (assistantText @ d,
              w\<lparr>messages := (messages w)
                   [msgIndex := (messages w ! msgIndex)\<lparr>content := assistantText @ d\<rparr>]\<rparr>)
        else (assistantText @ d, w))"

text \<open>Every chunk boundary is a line boundary: each chunk but the last is empty or ends
  with a newline.\<close>

definition line_aligned :: "string list \<Rightarrow> bool" where
  "line_aligned chunks = list_all (\<lambda>c. c = [] \<or> last c = newline) (butlast chunks)"

section \<open>Conversation lifecycle (\<^verbatim>\<open>_sendMessage\<close>)\<close>

text \<open>\<^verbatim>\<open>String.prototype.trim\<close>, on the white space of the character range of the model.\<close>

definition isWhiteSpace :: "char \<Rightarrow> bool" where
  "isWhiteSpace c =
     (c = CHR 0x09 \<or> c = CHR 0x0A \<or> c = CHR 0x0B \<or> c = CHR 0x0C \<or> c = CHR 0x0D
      \<or> c = CHR 0x20 \<or> c = CHR 0xA0)"

definition trim :: "string \<Rightarrow> string" where
  "trim s = rev (dropWhile isWhiteSpace (rev (dropWhile isWhiteSpace s)))"

text \<open>
  Step 1 of the \<^verbatim>\<open>try\<close> block, "Ensure thread exists": the thread id to use, or the
  exception thrown on the way. A stored id that is \<^verbatim>\<open>null\<close>, empty or the text
  \<^verbatim>\<open>undefined\<close> leads to \<^verbatim>\<open>createThread\<close>; the id it returns is stored when truthy.
\<close>

definition createAndStore :: "server \<Rightarrow> world \<Rightarrow> (js_error + string) \<times> world" where
  "createAndStore srv w =
     (let w1 = w\<lparr>calls := calls w @ [CreateThreadCall (apiBaseUrl w) (tenantId w)]\<rparr>
      in case createThread (createReply srv (length (filter is_create (calls w)))) of
           Inl e \<Rightarrow> (Inl e, w1)
         | Inr thread \<Rightarrow>
             if truthy (get_prop thread ''threadId'') then
               (case setThreadId (session w1) (tenantId w1)
                       (to_string_opt (get_prop thread ''threadId'')) of
                  Inl e \<Rightarrow> (Inl e, w1)
                | Inr ss \<Rightarrow>
                    (Inr (to_string_opt (get_prop thread ''threadId'')), w1\<lparr>session := ss\<rparr>))
             else (Inr (to_string_opt (get_prop thread ''threadId'')), w1))"

definition resolveThread :: "server \<Rightarrow> world \<Rightarrow> (js_error + string) \<times> world" where
  "resolveThread srv w =
     (case getThreadId (session w) (tenantId w) of
        Inl e \<Rightarrow> (Inl e, w)
      | Inr None \<Rightarrow> createAndStore srv w
      | Inr (Some threadId) \<Rightarrow>
          if threadId = [] \<or> threadId = ''undefined'' then createAndStore srv w
          else (Inr threadId, w))"

text \<open>
  Steps 2 and 3: the assistant placeholder, then the streaming call and the decoding of its
  body. The result is the exception that reaches the inner \<^verbatim>\<open>catch\<close>, if any.
\<close>

definition streamMessage ::
  "(string \<Rightarrow> json option) \<Rightarrow> server \<Rightarrow> string \<Rightarrow> string \<Rightarrow> world \<Rightarrow> js_error option \<times> world"
where
  "streamMessage parse srv threadId text w =
     (let w1 = w\<lparr>messages := messages w @ [\<lparr>role = Assistant, content = []\<rparr>]\<rparr>;
          msgIndex = length (messages w1) - 1;
          w2 = w1\<lparr>calls := calls w1
                  @ [SendMessageStreamCall (apiBaseUrl w1) (tenantId w1) threadId text]\<rparr>
      in case sendMessageStream (sendReply srv (length (filter is_send (calls w1)))) of
           Inl e \<Rightarrow> (Some e, w2)
         | Inr response_body \<Rightarrow> processStream parse response_body msgIndex w2)"

text \<open>The outer \<^verbatim>\<open>catch\<close> and the \<^verbatim>\<open>finally\<close>.\<close>

definition catchBlock :: "js_error \<Rightarrow> world \<Rightarrow> world" where
  "catchBlock e w =
     (if error_name e = ''AbortError'' then w
      else w\<lparr>error := Some (if error_message e = [] then ''Gagal mengirim pesan''
                             else error_message e)\<rparr>)"

definition finallyBlock :: "world \<Rightarrow> world" where
  "finallyBlock w = w\<lparr>isStreaming := False, abortController := None\<rparr>"

text \<open>
  The statements between the guard and the \<^verbatim>\<open>try\<close>: the flags, the optimistic user
  message and a fresh \<^verbatim>\<open>AbortController\<close>.
\<close>

definition acceptSubmission :: "string \<Rightarrow> world \<Rightarrow> world" where
  "acceptSubmission text w =
     w\<lparr>isStreaming := True, error := None, inputValue := [],
       messages := messages w @ [\<lparr>role = User, content = text\<rparr>],
       abortController := Some False\<rparr>"

lemma processLine_isStreaming:
  "isStreaming (snd (processLine parse i line st)) = isStreaming (snd st)"
  by (cases st) (simp add: processLine_def Let_def split: option.splits)

lemma processChunk_isStreaming:
  "isStreaming (snd (processChunk parse i chunk st)) = isStreaming (snd st)"
proof -
  have "isStreaming (snd (foldl (\<lambda>st line. processLine parse i line st) st ls))
        = isStreaming (snd st)" for ls
    by (induction ls arbitrary: st) (simp_all add: processLine_isStreaming)
  then show ?thesis by (simp add: processChunk_def)
qed

lemma readLoop_isStreaming:
  "isStreaming (snd (snd (readLoop parse i evs fin st))) = isStreaming (snd st)"
proof (induction parse i evs fin st rule: readLoop.induct)
  case (1 parse msgIndex fin st)
  then show ?case by (simp split: stream_end.splits)
next
  case (2 parse msgIndex chunk evs fin st)
  then show ?case by (simp add: processChunk_isStreaming)
next
  case (3 parse msgIndex evs fin st)
  then show ?case
    by (cases st) (simp add: disconnectedCallback_def split: option.splits)
qed

lemma processStream_isStreaming:
  "isStreaming (snd (processStream parse b i w)) = isStreaming w"
proof (cases b)
  case None
  then show ?thesis by (simp add: processStream_def)
next
  case (Some bd)
  obtain r t w' where rl: "readLoop parse i (events bd) (ending bd) ([], w) = (r, t, w')"
    by (metis prod_cases3)
  from readLoop_isStreaming [of parse i "events bd" "ending bd" "([], w)"] rl
  have "isStreaming w' = isStreaming w" by simp
  with Some rl show ?thesis by (simp add: processStream_def)
qed

lemma streamMessage_isStreaming:
  "isStreaming (snd (streamMessage parse srv tid text w)) = isStreaming w"
  by (simp add: streamMessage_def Let_def processStream_isStreaming split: sum.splits)

lemma createAndStore_isStreaming:
  "isStreaming (snd (createAndStore srv w)) = isStreaming w"
  by (simp add: createAndStore_def Let_def split: sum.splits)

lemma resolveThread_isStreaming:
  "isStreaming (snd (resolveThread srv w)) = isStreaming w"
  by (simp add: resolveThread_def createAndStore_isStreaming split: sum.splits option.splits)

text \<open>
  \<^verbatim>\<open>_sendMessage\<close> and \<^verbatim>\<open>_sendMessageWithNewThread\<close>. The guard returns before the
  \<^verbatim>\<open>try\<close>, so without the \<^verbatim>\<open>finally\<close>. In the recovery branch the code evaluates
  \<^verbatim>\<open>return this._sendMessageWithNewThread(text)\<close> inside the \<^verbatim>\<open>try\<close>, with no
  \<^verbatim>\<open>await\<close>: the call runs first, as far as its first \<^verbatim>\<open>await\<close>, and the \<^verbatim>\<open>finally\<close> of
  the caller after it. The functions below run the call to its end before the \<^verbatim>\<open>finally\<close>;
  that is the order of the code, because the call made there never reaches an \<^verbatim>\<open>await\<close>
  (\<open>retry_is_skipped\<close> below). The termination proof rests on the same fact: the call is
  made with \<^verbatim>\<open>isStreaming\<close> set.
\<close>

function sendMessage :: "(string \<Rightarrow> json option) \<Rightarrow> server \<Rightarrow> world \<Rightarrow> world"
  and sendMessageWithNewThread ::
    "(string \<Rightarrow> json option) \<Rightarrow> server \<Rightarrow> string \<Rightarrow> world \<Rightarrow> world"
where
  "sendMessage parse srv w =
     (let text = trim (inputValue w) in
      if text = [] \<or> isStreaming w \<or> tenantId w = [] \<or> apiBaseUrl w = [] then w
      else
        (let w1 = acceptSubmission text w
         in case resolveThread srv w1 of
              (Inl e, w2) \<Rightarrow> finallyBlock (catchBlock e w2)
            | (Inr threadId, w2) \<Rightarrow>
                (case streamMessage parse srv threadId text w2 of
                   (None, w3) \<Rightarrow> finallyBlock w3
                 | (Some e, w3) \<Rightarrow>
                     if is_ApiError_404 e then
                       (case clearThreadId (session w3) (tenantId w3) of
                          Inl e' \<Rightarrow> finallyBlock (catchBlock e' w3)
                        | Inr ss \<Rightarrow>
                            finallyBlock
                              (sendMessageWithNewThread parse srv text (w3\<lparr>session := ss\<rparr>)))
                     else finallyBlock (catchBlock e w3))))"
| "sendMessageWithNewThread parse srv text w =
     sendMessage parse srv (w\<lparr>messages := butlast (messages w), inputValue := text\<rparr>)"
  by pat_completeness auto

termination
proof (relation "measure (\<lambda>x. case x of
                     Inl (p, srv, w) \<Rightarrow> (if isStreaming w then 0 else 2)
                   | Inr (p, srv, t, w) \<Rightarrow> (if isStreaming w then 1 else 3))", goal_cases)
  case 1
  show ?case by simp
next
  case (2 parse srv w tx w1 r w2 threadId r3 w3 e ss)
  from "2"(2) have idle: "\<not> isStreaming w" by simp
  from "2"(3) have "isStreaming w1" by (simp add: acceptSubmission_def)
  moreover from "2"(4) have "w2 = snd (resolveThread srv w1)" by (metis snd_conv)
  ultimately have "isStreaming w2" by (simp add: resolveThread_isStreaming)
  moreover from "2"(6) have "w3 = snd (streamMessage parse srv threadId tx w2)"
    by (metis snd_conv)
  ultimately have "isStreaming w3" by (simp add: streamMessage_isStreaming)
  with idle show ?case by simp
next
  case (3 parse srv tx w)
  show ?case by simp
qed

declare sendMessage.simps [simp del]
declare sendMessageWithNewThread.simps [simp del]

text \<open>The test of step 1: the storage holds a thread id that is used as it is (not
  \<^verbatim>\<open>null\<close>, not empty, not the text \<^verbatim>\<open>undefined\<close>).\<close>

definition threadStored :: "world \<Rightarrow> bool" where
  "threadStored w =
     (case getThreadId (session w) (tenantId w) of
        Inr (Some threadId) \<Rightarrow> threadId \<noteq> [] \<and> threadId \<noteq> ''undefined''
      | _ \<Rightarrow> False)"

text \<open>A submission passes the guard of \<^verbatim>\<open>_sendMessage\<close>.\<close>

definition accepted :: "world \<Rightarrow> bool" where
  "accepted w =
     (trim (inputValue w) \<noteq> [] \<and> \<not> isStreaming w \<and> tenantId w \<noteq> [] \<and> apiBaseUrl w \<noteq> [])"

section \<open>A component in mid-turn\<close>

text \<open>The component of tenant \<^verbatim>\<open>acme\<close> while it streams the answer to "hi": the user
  message and the empty assistant placeholder at index 1. The examples below run on it.\<close>

definition chat_hi :: world where
  "chat_hi =
     \<lparr>tenantId = ''acme'', apiBaseUrl = ''https://api.example'',
      messages = [\<lparr>role = User, content = ''hi''\<rparr>, \<lparr>role = Assistant, content = []\<rparr>],
      isStreaming = True, error = None, inputValue = [], abortController = Some False,
      session = \<lparr>accessible = True, quotaExceeded = False, items = Map.empty\<rparr>,
      calls = []\<rparr>"

text \<open>
  The same component at rest, with \<^verbatim>\<open> hi \<close> typed into the input: once with the thread
  \<^verbatim>\<open>t-old\<close> in the storage, once with the text \<^verbatim>\<open>undefined\<close> in its place. Then a
  response body that carries \<^verbatim>\<open>Hel\<close> and \<^verbatim>\<open>lo\<close>, the same body with the element removed
  from the page between the two chunks, the answer to a thread creation, and four servers:
  one that answers every streaming call with the two chunks, one whose stream is cut by the
  teardown, one that answers the first streaming call with 404 and any later one with the
  two chunks, and one that answers every streaming call with 404.
\<close>

definition idle_hi :: world where
  "idle_hi =
     \<lparr>tenantId = ''acme'', apiBaseUrl = ''https://api.example'', messages = [],
      isStreaming = False, error = None, inputValue = '' hi '', abortController = None,
      session = \<lparr>accessible = True, quotaExceeded = False,
                  items = [getThreadKey ''acme'' \<mapsto> ''t-old'']\<rparr>,
      calls = []\<rparr>"

definition idle_hi_unset :: world where
  "idle_hi_unset =
     idle_hi\<lparr>session := \<lparr>accessible = True, quotaExceeded = False,
                           items = [getThreadKey ''acme'' \<mapsto> ''undefined'']\<rparr>\<rparr>"

definition hello_body :: body where
  \<open>hello_body =
     \<lparr>events = map Chunk [''data: {"type":"text-delta","delta":"Hel"}\<newline>'',
                          ''data: {"type":"text-delta","delta":"lo"}\<newline>''],
      ending = StreamDone\<rparr>\<close>

definition torn_body :: body where
  \<open>torn_body =
     \<lparr>events = map Chunk [''data: {"type":"text-delta","delta":"Hel"}\<newline>'']
                @ Teardown # [Chunk ''data: {"type":"text-delta","delta":"lo"}\<newline>''],
      ending = StreamDone\<rparr>\<close>

definition new_thread :: create_reply where
  "new_thread =
     CreateReplied 201
       (Inr (JObject [(''content'',
          JObject [(''threadId'', JString ''t-new''), (''tenantId'', JString ''acme''),
                   (''expiresAt'', JString ''2026-01-01T00:00:00Z'')])]))"

definition server_ok :: server where
  "server_ok = \<lparr>createReply = (\<lambda>n. new_thread),
                sendReply = (\<lambda>n. SendReplied 200 (Inr []) (Some hello_body))\<rparr>"

definition server_torn :: server where
  "server_torn = \<lparr>createReply = (\<lambda>n. new_thread),
                  sendReply = (\<lambda>n. SendReplied 200 (Inr []) (Some torn_body))\<rparr>"

definition server_expired_once :: server where
  "server_expired_once =
     \<lparr>createReply = (\<lambda>n. new_thread),
      sendReply = (\<lambda>n. if n = 0 then SendReplied 404 (Inr ''Not Found'') None
                        else SendReplied 200 (Inr []) (Some hello_body))\<rparr>"

definition server_expired :: server where
  "server_expired =
     \<lparr>createReply = (\<lambda>n. new_thread),
      sendReply = (\<lambda>n. SendReplied 404 (Inr ''Not Found'') None)\<rparr>"

section \<open>Properties of the storage wrapper\<close>

lemma getThreadId_returns: "\<exists>v. getThreadId ss t = Inr v"
  by (simp add: getThreadId_def getItem_def)

lemma setThreadId_returns: "\<exists>ss'. setThreadId ss t v = Inr ss'"
  by (simp add: setThreadId_def setItem_def)

lemma clearThreadId_returns: "\<exists>ss'. clearThreadId ss t = Inr ss'"
  by (simp add: clearThreadId_def removeItem_def)

text \<open>
  Claim C9. For every tenant id and every storage, available or not: clearing the thread id
  and then reading it gives absent; none of the three operations throws into its caller;
  and when the platform storage is unavailable, or \<^verbatim>\<open>setItem\<close> throws for lack of quota,
  the read returns \<^verbatim>\<open>null\<close> and the writers return normally with the storage unchanged.
\<close>

theorem Storage_degrades_gracefully:
  "(\<exists>ss'. clearThreadId ss t = Inr ss' \<and> getThreadId ss' t = Inr None)
   \<and> (\<exists>r. getThreadId ss t = Inr r)
   \<and> (\<exists>ss'. setThreadId ss t v = Inr ss')
   \<and> (\<not> accessible ss \<longrightarrow>
        getThreadId ss t = Inr None \<and> setThreadId ss t v = Inr ss \<and> clearThreadId ss t = Inr ss)
   \<and> (quotaExceeded ss \<longrightarrow> setThreadId ss t v = Inr ss)"
  by (simp add: clearThreadId_def getThreadId_def setThreadId_def
      removeItem_def getItem_def setItem_def)

theorem Storage_degrades_gracefully_witness:
  "\<not> accessible \<lparr>accessible = False, quotaExceeded = True, items = Map.empty\<rparr>
   \<and> quotaExceeded \<lparr>accessible = False, quotaExceeded = True, items = Map.empty\<rparr>
   \<and> getThreadId \<lparr>accessible = False, quotaExceeded = True, items = Map.empty\<rparr> ''acme'' = Inr None
   \<and> setThreadId \<lparr>accessible = False, quotaExceeded = True, items = Map.empty\<rparr> ''acme'' ''t1''
       = Inr \<lparr>accessible = False, quotaExceeded = True, items = Map.empty\<rparr>
   \<and> clearThreadId \<lparr>accessible = False, quotaExceeded = True, items = Map.empty\<rparr> ''acme''
       = Inr \<lparr>accessible = False, quotaExceeded = True, items = Map.empty\<rparr>"
  using Storage_degrades_gracefully
    [of "\<lparr>accessible = False, quotaExceeded = True, items = Map.empty\<rparr>" "''acme''" "''t1''"]
  by simp

section \<open>Properties of the stream decoder\<close>

lemma split_on_nonempty: "split_on sep s \<noteq> []"
  by (induction s) (auto split: list.splits)

lemma split_on_append:
  "split_on sep (xs @ sep # ys) = split_on sep xs @ split_on sep ys"
proof (induction xs)
  case Nil
  then show ?case by simp
next
  case (Cons x xs)
  then show ?case
    using split_on_nonempty [of sep xs]
    by (cases "split_on sep xs") auto
qed

lemma split_on_snoc: "split_on sep (xs @ [sep]) = split_on sep xs @ [[]]"
  using split_on_append [of sep xs "[]"] by simp

lemma map_filter_append:
  "List.map_filter f (xs @ ys) = List.map_filter f xs @ List.map_filter f ys"
  by (induction xs) (auto split: option.splits)

lemma lineDelta_empty: "lineDelta parse [] = None"
  by (simp add: lineDelta_def)

lemma chunkDeltas_empty: "chunkDeltas parse [] = []"
  by (simp add: chunkDeltas_def lineDelta_empty)

lemma chunkDeltas_append:
  assumes "c1 = [] \<or> last c1 = newline"
  shows "chunkDeltas parse (c1 @ c2) = chunkDeltas parse c1 @ chunkDeltas parse c2"
proof (cases "c1 = []")
  case True
  then show ?thesis by (simp add: chunkDeltas_empty)
next
  case False
  with assms have "c1 = butlast c1 @ [newline]"
    by (metis append_butlast_last_id)
  then obtain xs where c1: "c1 = xs @ [newline]" ..
  have "split_on newline (c1 @ c2) = split_on newline xs @ split_on newline c2"
    using split_on_append [of newline xs c2] by (simp add: c1)
  moreover have "split_on newline c1 = split_on newline xs @ [[]]"
    by (simp add: c1 split_on_snoc)
  ultimately show ?thesis
    by (simp add: chunkDeltas_def map_filter_append lineDelta_empty)
qed

lemma streamDeltas_aligned:
  "line_aligned chunks \<Longrightarrow> streamDeltas parse chunks = chunkDeltas parse (concat chunks)"
proof (induction chunks)
  case Nil
  then show ?case by (simp add: streamDeltas_def chunkDeltas_empty)
next
  case (Cons c cs)
  show ?case
  proof (cases "cs = []")
    case True
    then show ?thesis by (simp add: streamDeltas_def)
  next
    case False
    with Cons.prems have c: "c = [] \<or> last c = newline" and rest: "line_aligned cs"
      by (simp_all add: line_aligned_def)
    from Cons.IH [OF rest] chunkDeltas_append [OF c, of parse "concat cs"]
    show ?thesis by (simp add: streamDeltas_def)
  qed
qed

lemma processLine_delta:
  "processLine parse i line st =
     (case lineDelta parse line of None \<Rightarrow> st | Some d \<Rightarrow> applyDelta i st d)"
  by (cases st)
     (auto simp: processLine_def lineDelta_def applyDelta_def Let_def split: option.splits)

lemma foldl_processLine:
  "foldl (\<lambda>st line. processLine parse i line st) st ls
   = foldl (applyDelta i) st (List.map_filter (lineDelta parse) ls)"
  by (induction ls arbitrary: st) (auto simp: processLine_delta split: option.splits)

lemma processChunk_deltas:
  "processChunk parse i chunk st = foldl (applyDelta i) st (chunkDeltas parse chunk)"
  by (simp add: processChunk_def chunkDeltas_def foldl_processLine)

lemma readLoop_chunks:
  "readLoop parse i (map Chunk chunks @ evs) fin st
   = readLoop parse i evs fin (foldl (applyDelta i) st (streamDeltas parse chunks))"
proof (induction chunks arbitrary: st)
  case Nil
  then show ?case by (simp add: streamDeltas_def)
next
  case (Cons c cs)
  then show ?case by (simp add: streamDeltas_def processChunk_deltas)
qed

lemma foldl_applyDelta:
  assumes "i < length (messages w)"
  shows "foldl (applyDelta i) (t, w) ds =
           (t @ concat ds,
            if ds = [] then w
            else w\<lparr>messages := (messages w)[i := (messages w ! i)\<lparr>content := t @ concat ds\<rparr>]\<rparr>)"
  using assms
proof (induction ds arbitrary: t w)
  case Nil
  then show ?case by simp
next
  case (Cons d ds)
  let ?w = "w\<lparr>messages := (messages w)[i := (messages w ! i)\<lparr>content := t @ d\<rparr>]\<rparr>"
  have step: "applyDelta i (t, w) d = (t @ d, ?w)"
    using Cons.prems by (simp add: applyDelta_def)
  have len: "i < length (messages ?w)" using Cons.prems by simp
  show ?case
    using Cons.IH [OF len, of "t @ d"] Cons.prems
    by (simp add: step)
qed

lemma split_on_no_sep: "sep \<notin> set s \<Longrightarrow> split_on sep s = [s]"
  by (induction s) auto

lemma processStream_chunks:
  "processStream parse (Some \<lparr>events = map Chunk chunks, ending = fin\<rparr>) i w =
     ((case fin of StreamDone \<Rightarrow> None | ReadError e \<Rightarrow> Some e),
      snd (foldl (applyDelta i) ([], w) (streamDeltas parse chunks)))"
  using readLoop_chunks [of parse i chunks "[]" fin "([], w)"]
  by (simp add: processStream_def split: stream_end.splits prod.splits)

lemma hello_deltas:
  \<open>streamDeltas JSON_parse
     [''data: {"type":"text-delta","delta":"Hel"}\<newline>'',
      ''data: {"type":"text-delta","delta":"lo"}\<newline>''] = [''Hel'', ''lo'']\<close>
  by code_simp

lemma malformed_payload: \<open>JSON_parse (drop 6 ''data: {"type":"text-de'') = None\<close>
  by code_simp

lemma wellformed_deltas:
  \<open>chunkDeltas JSON_parse ''data: {"type":"text-delta","delta":"ok"}\<newline>'' = [''ok'']\<close>
  by code_simp

lemma split_frame_deltas:
  \<open>streamDeltas JSON_parse [''data: {"type":"text-de'', ''lta","delta":"lo"}\<newline>''] = []\<close>
  by code_simp

lemma whole_frame_deltas:
  \<open>streamDeltas JSON_parse [''data: {"type":"text-de'' @ ''lta","delta":"lo"}\<newline>''] = [''lo'']\<close>
  by code_simp

subsection \<open>Order of the deltas\<close>

text \<open>
  Claim C6. Delta events reach the assistant placeholder in the order in which they are
  decoded, each appended to what has accumulated: after a stream of chunks that ends
  normally, the content of the placeholder is the concatenation, in order, of the delta
  texts of all lines of all chunks (when there is none, the message is left as it was);
  and a single delta line turns the accumulated text \<open>t\<close> into \<open>t @ d\<close>, which is what it
  writes into the placeholder. The witness is the stream of the two chunks carrying
  \<^verbatim>\<open>Hel\<close> and \<^verbatim>\<open>lo\<close>, which leaves \<^verbatim>\<open>Hello\<close>.
\<close>

theorem deltas_concatenated_in_order:
  "msgIndex < length (messages w) \<Longrightarrow>
   processStream parse (Some \<lparr>events = map Chunk chunks, ending = StreamDone\<rparr>) msgIndex w
     = (None,
        if streamDeltas parse chunks = [] then w
        else w\<lparr>messages := (messages w)
               [msgIndex := (messages w ! msgIndex)
                  \<lparr>content := concat (streamDeltas parse chunks)\<rparr>]\<rparr>)
   \<and> (\<forall>line d t. lineDelta parse line = Some d \<longrightarrow>
         processLine parse msgIndex line (t, w)
           = (t @ d, w\<lparr>messages := (messages w)
                       [msgIndex := (messages w ! msgIndex)\<lparr>content := t @ d\<rparr>]\<rparr>))"
  by (simp add: processStream_chunks foldl_applyDelta processLine_delta applyDelta_def)

theorem deltas_concatenated_in_order_witness:
  \<open>1 < length (messages chat_hi)
   \<and> processStream JSON_parse
       (Some \<lparr>events = [Chunk ''data: {"type":"text-delta","delta":"Hel"}\<newline>'',
                        Chunk ''data: {"type":"text-delta","delta":"lo"}\<newline>''],
              ending = StreamDone\<rparr>) 1 chat_hi
     = (None, chat_hi\<lparr>messages := [\<lparr>role = User, content = ''hi''\<rparr>,
                                     \<lparr>role = Assistant, content = ''Hello''\<rparr>]\<rparr>)\<close>
  using deltas_concatenated_in_order
    [of 1 chat_hi JSON_parse
      \<open>[''data: {"type":"text-delta","delta":"Hel"}\<newline>'',
        ''data: {"type":"text-delta","delta":"lo"}\<newline>'']\<close>]
  by (simp add: hello_deltas) (simp add: chat_hi_def)

subsection \<open>Lines that are ignored\<close>

text \<open>
  Claim C7. A line that does not begin with \<^verbatim>\<open>data: \<close>, a \<^verbatim>\<open>data: \<close> line whose payload
  fails to parse, and a parsed event whose type is not \<^verbatim>\<open>text-delta\<close> leave the decoder
  state as it is, and the lines after it in the chunk are processed as if it were not
  there. The witness is a chunk with a truncated frame followed by a well-formed
  \<^verbatim>\<open>text-delta\<close> frame: the delta of the second is applied.
\<close>

theorem ignored_lines_are_skipped:
  "take 6 line \<noteq> ''data: '' \<or> parse (drop 6 line) = None
     \<or> (\<exists>data. parse (drop 6 line) = Some data
            \<and> get_prop data ''type'' \<noteq> Some (JString ''text-delta'')) \<Longrightarrow>
   newline \<notin> set line \<Longrightarrow>
   processLine parse msgIndex line st = st
   \<and> processChunk parse msgIndex (line @ newline # rest) st = processChunk parse msgIndex rest st"
proof -
  assume ign: "take 6 line \<noteq> ''data: '' \<or> parse (drop 6 line) = None
     \<or> (\<exists>data. parse (drop 6 line) = Some data
            \<and> get_prop data ''type'' \<noteq> Some (JString ''text-delta''))"
    and nl: "newline \<notin> set line"
  from ign have none: "lineDelta parse line = None"
    by (auto simp: lineDelta_def)
  then have one: "processLine parse msgIndex line st = st"
    by (simp add: processLine_delta)
  have "split_on newline (line @ newline # rest) = line # split_on newline rest"
    using split_on_append [of newline line rest] nl by (simp add: split_on_no_sep)
  then have "processChunk parse msgIndex (line @ newline # rest) st
             = processChunk parse msgIndex rest st"
    by (simp add: processChunk_def one)
  with one show ?thesis by simp
qed

theorem ignored_lines_are_skipped_witness:
  \<open>JSON_parse (drop 6 ''data: {"type":"text-de'') = None
   \<and> newline \<notin> set ''data: {"type":"text-de''
   \<and> processChunk JSON_parse 1
        (''data: {"type":"text-de'' @ newline # ''data: {"type":"text-delta","delta":"ok"}\<newline>'')
        ([], chat_hi)
     = (''ok'', chat_hi\<lparr>messages := [\<lparr>role = User, content = ''hi''\<rparr>,
                                      \<lparr>role = Assistant, content = ''ok''\<rparr>]\<rparr>)\<close>
proof -
  have nl: \<open>newline \<notin> set ''data: {"type":"text-de''\<close>
    by (simp add: newline_def)
  have rest: \<open>processChunk JSON_parse 1 ''data: {"type":"text-delta","delta":"ok"}\<newline>'' ([], chat_hi)
    = (''ok'', chat_hi\<lparr>messages := [\<lparr>role = User, content = ''hi''\<rparr>,
                                      \<lparr>role = Assistant, content = ''ok''\<rparr>]\<rparr>)\<close>
    by (simp add: processChunk_deltas wellformed_deltas applyDelta_def) (simp add: chat_hi_def)
  from ignored_lines_are_skipped
    [of \<open>''data: {"type":"text-de''\<close> JSON_parse 1 "([], chat_hi)"
        \<open>''data: {"type":"text-delta","delta":"ok"}\<newline>''\<close>, OF _ nl]
    malformed_payload nl rest
  show ?thesis by simp
qed

subsection \<open>Chunk boundaries\<close>

text \<open>
  Claim C2 says that a line split across a chunk boundary is carried over and
  reassembled, so that the output is that of the whole stream as one chunk. The loop keeps
  no buffer between chunks (the comment of its \<^verbatim>\<open>catch\<close> reads "ignore partial json"): at
  the frame below, cut inside its payload, the first fragment fails to parse, the second
  does not begin with \<^verbatim>\<open>data: \<close>, and the delta \<^verbatim>\<open>lo\<close> that the whole frame carries is lost.
\<close>

theorem split_line_is_lost:
  \<open>snd (processStream JSON_parse
      (Some \<lparr>events = [Chunk ''data: {"type":"text-de'', Chunk ''lta","delta":"lo"}\<newline>''],
             ending = StreamDone\<rparr>) 1 chat_hi) = chat_hi
   \<and> snd (processStream JSON_parse
      (Some \<lparr>events = [Chunk (''data: {"type":"text-de'' @ ''lta","delta":"lo"}\<newline>'')],
             ending = StreamDone\<rparr>) 1 chat_hi)
     = chat_hi\<lparr>messages := [\<lparr>role = User, content = ''hi''\<rparr>,
                               \<lparr>role = Assistant, content = ''lo''\<rparr>]\<rparr>
   \<and> chat_hi \<noteq> chat_hi\<lparr>messages := [\<lparr>role = User, content = ''hi''\<rparr>,
                                        \<lparr>role = Assistant, content = ''lo''\<rparr>]\<rparr>\<close>
proof -
  have a: \<open>snd (processStream JSON_parse
      (Some \<lparr>events = map Chunk [''data: {"type":"text-de'', ''lta","delta":"lo"}\<newline>''],
             ending = StreamDone\<rparr>) 1 chat_hi) = chat_hi\<close>
    by (simp only: processStream_chunks split_frame_deltas) simp
  have b: \<open>snd (processStream JSON_parse
      (Some \<lparr>events = map Chunk [''data: {"type":"text-de'' @ ''lta","delta":"lo"}\<newline>''],
             ending = StreamDone\<rparr>) 1 chat_hi)
     = chat_hi\<lparr>messages := [\<lparr>role = User, content = ''hi''\<rparr>,
                               \<lparr>role = Assistant, content = ''lo''\<rparr>]\<rparr>\<close>
    by (simp only: processStream_chunks whole_frame_deltas)
       (simp add: applyDelta_def chat_hi_def)
  have c: \<open>chat_hi \<noteq> chat_hi\<lparr>messages := [\<lparr>role = User, content = ''hi''\<rparr>,
                                        \<lparr>role = Assistant, content = ''lo''\<rparr>]\<rparr>\<close>
    by (simp add: chat_hi_def)
  from a b c show ?thesis by simp
qed

text \<open>
  Claim C2, as amended. Every chunk is decoded on its own: the deltas applied are those of
  the lines of each chunk, chunk after chunk, a fragment at either side of a boundary being
  a line of its own. When every chunk boundary is a line boundary (each chunk but the last
  is empty or ends with a newline), the result equals that of the whole stream delivered as
  a single chunk.
\<close>

theorem chunks_decoded_one_by_one:
  "processStream parse (Some \<lparr>events = map Chunk chunks, ending = fin\<rparr>) msgIndex w
     = ((case fin of StreamDone \<Rightarrow> None | ReadError e \<Rightarrow> Some e),
        snd (foldl (applyDelta msgIndex) ([], w) (concat (map (chunkDeltas parse) chunks))))
   \<and> (line_aligned chunks \<longrightarrow>
        processStream parse (Some \<lparr>events = map Chunk chunks, ending = fin\<rparr>) msgIndex w
        = processStream parse (Some \<lparr>events = [Chunk (concat chunks)], ending = fin\<rparr>) msgIndex w)"
proof -
  have "line_aligned chunks \<Longrightarrow> streamDeltas parse chunks = streamDeltas parse [concat chunks]"
    by (simp add: streamDeltas_aligned) (simp add: streamDeltas_def)
  then show ?thesis
    using processStream_chunks [of parse chunks fin msgIndex w]
      processStream_chunks [of parse "[concat chunks]" fin msgIndex w]
    by (simp add: streamDeltas_def)
qed

theorem chunks_decoded_one_by_one_witness:
  \<open>line_aligned [''data: {"type":"text-delta","delta":"Hel"}\<newline>'',
                 ''data: {"type":"text-delta","delta":"lo"}\<newline>'']
   \<and> processStream JSON_parse
       (Some \<lparr>events = map Chunk [''data: {"type":"text-delta","delta":"Hel"}\<newline>'',
                        ''data: {"type":"text-delta","delta":"lo"}\<newline>''],
              ending = StreamDone\<rparr>) 1 chat_hi
     = processStream JSON_parse
       (Some \<lparr>events = [Chunk (concat [''data: {"type":"text-delta","delta":"Hel"}\<newline>'',
                        ''data: {"type":"text-delta","delta":"lo"}\<newline>''])],
              ending = StreamDone\<rparr>) 1 chat_hi\<close>
proof -
  have al: \<open>line_aligned [''data: {"type":"text-delta","delta":"Hel"}\<newline>'',
                 ''data: {"type":"text-delta","delta":"lo"}\<newline>'']\<close>
    by (simp add: line_aligned_def newline_def)
  from chunks_decoded_one_by_one
    [of JSON_parse \<open>[''data: {"type":"text-delta","delta":"Hel"}\<newline>'',
                 ''data: {"type":"text-delta","delta":"lo"}\<newline>'']\<close> StreamDone 1 chat_hi] al
  show ?thesis by blast
qed

section \<open>The outcomes of a submission\<close>

text \<open>
  The call that \<^verbatim>\<open>_sendMessageWithNewThread\<close> makes finds \<^verbatim>\<open>isStreaming\<close> still set, since the
  \<^verbatim>\<open>finally\<close> of the submission that calls it has not run yet: it returns at the guard, before
  any \<^verbatim>\<open>await\<close>. What remains of the recovery is the removal of the placeholder and the
  text put back into the input.
\<close>

lemma retry_is_skipped:
  "isStreaming w \<Longrightarrow>
   sendMessageWithNewThread parse srv tx w = w\<lparr>messages := butlast (messages w), inputValue := tx\<rparr>"
  by (simp add: sendMessageWithNewThread.simps
      sendMessage.simps [of parse srv "w\<lparr>messages := butlast (messages w), inputValue := tx\<rparr>"])

lemma sendMessage_rejected: "\<not> accepted w \<Longrightarrow> sendMessage parse srv w = w"
  by (subst sendMessage.simps) (auto simp: accepted_def Let_def)

lemma acceptSubmission_isStreaming: "isStreaming (acceptSubmission tx w)"
  by (simp add: acceptSubmission_def)

lemma sendMessage_resolve_failed:
  assumes "accepted w"
    and "resolveThread srv (acceptSubmission (trim (inputValue w)) w) = (Inl e, w2)"
  shows "sendMessage parse srv w = finallyBlock (catchBlock e w2)"
  using assms by (subst sendMessage.simps) (simp add: accepted_def Let_def)

lemma sendMessage_completed:
  assumes "accepted w"
    and "resolveThread srv (acceptSubmission (trim (inputValue w)) w) = (Inr tid, w2)"
    and "streamMessage parse srv tid (trim (inputValue w)) w2 = (None, w3)"
  shows "sendMessage parse srv w = finallyBlock w3"
  using assms by (subst sendMessage.simps) (simp add: accepted_def Let_def)

lemma sendMessage_failed:
  assumes "accepted w"
    and "resolveThread srv (acceptSubmission (trim (inputValue w)) w) = (Inr tid, w2)"
    and "streamMessage parse srv tid (trim (inputValue w)) w2 = (Some e, w3)"
    and "\<not> is_ApiError_404 e"
  shows "sendMessage parse srv w = finallyBlock (catchBlock e w3)"
  using assms by (subst sendMessage.simps) (simp add: accepted_def Let_def)

lemma sendMessage_expired:
  assumes "accepted w"
    and "resolveThread srv (acceptSubmission (trim (inputValue w)) w) = (Inr tid, w2)"
    and "streamMessage parse srv tid (trim (inputValue w)) w2 = (Some e, w3)"
    and "is_ApiError_404 e"
    and "clearThreadId (session w3) (tenantId w3) = Inr ss"
  shows "sendMessage parse srv w =
           finallyBlock (w3\<lparr>session := ss, messages := butlast (messages w3),
                            inputValue := trim (inputValue w)\<rparr>)"
proof -
  have "isStreaming w2"
    using resolveThread_isStreaming [of srv "acceptSubmission (trim (inputValue w)) w"] assms(2)
    by (simp add: acceptSubmission_isStreaming)
  then have "isStreaming w3"
    using streamMessage_isStreaming [of parse srv tid "trim (inputValue w)" w2] assms(3)
    by simp
  then have "sendMessageWithNewThread parse srv (trim (inputValue w)) (w3\<lparr>session := ss\<rparr>)
             = w3\<lparr>session := ss, messages := butlast (messages w3),
                  inputValue := trim (inputValue w)\<rparr>"
    by (simp add: retry_is_skipped)
  with assms show ?thesis
    by (subst sendMessage.simps) (simp add: accepted_def Let_def)
qed

subsection \<open>What the steps leave alone\<close>

lemma applyDelta_fields:
  "tenantId (snd (applyDelta i st d)) = tenantId (snd st)"
  "apiBaseUrl (snd (applyDelta i st d)) = apiBaseUrl (snd st)"
  "error (snd (applyDelta i st d)) = error (snd st)"
  "inputValue (snd (applyDelta i st d)) = inputValue (snd st)"
  "abortController (snd (applyDelta i st d)) = abortController (snd st)"
  "session (snd (applyDelta i st d)) = session (snd st)"
  "calls (snd (applyDelta i st d)) = calls (snd st)"
  "length (messages (snd (applyDelta i st d))) = length (messages (snd st))"
  "take i (messages (snd (applyDelta i st d))) = take i (messages (snd st))"
  "map role (messages (snd (applyDelta i st d))) = map role (messages (snd st))"
  by (cases st; simp add: applyDelta_def map_update list_update_same_conv)+

lemma foldl_applyDelta_fields:
  "tenantId (snd (foldl (applyDelta i) st ds)) = tenantId (snd st)"
  "apiBaseUrl (snd (foldl (applyDelta i) st ds)) = apiBaseUrl (snd st)"
  "error (snd (foldl (applyDelta i) st ds)) = error (snd st)"
  "inputValue (snd (foldl (applyDelta i) st ds)) = inputValue (snd st)"
  "abortController (snd (foldl (applyDelta i) st ds)) = abortController (snd st)"
  "session (snd (foldl (applyDelta i) st ds)) = session (snd st)"
  "calls (snd (foldl (applyDelta i) st ds)) = calls (snd st)"
  "length (messages (snd (foldl (applyDelta i) st ds))) = length (messages (snd st))"
  "take i (messages (snd (foldl (applyDelta i) st ds))) = take i (messages (snd st))"
  "map role (messages (snd (foldl (applyDelta i) st ds))) = map role (messages (snd st))"
  by (induction ds arbitrary: st; simp add: applyDelta_fields)+

lemma readLoop_fields:
  "tenantId (snd (snd (readLoop parse i evs fin st))) = tenantId (snd st)"
  "apiBaseUrl (snd (snd (readLoop parse i evs fin st))) = apiBaseUrl (snd st)"
  "error (snd (snd (readLoop parse i evs fin st))) = error (snd st)"
  "inputValue (snd (snd (readLoop parse i evs fin st))) = inputValue (snd st)"
  "session (snd (snd (readLoop parse i evs fin st))) = session (snd st)"
  "calls (snd (snd (readLoop parse i evs fin st))) = calls (snd st)"
  "length (messages (snd (snd (readLoop parse i evs fin st)))) = length (messages (snd st))"
  "take i (messages (snd (snd (readLoop parse i evs fin st)))) = take i (messages (snd st))"
  "map role (messages (snd (snd (readLoop parse i evs fin st))))
     = map role (messages (snd st))"
  by (induction parse i evs fin st rule: readLoop.induct;
      simp add: processChunk_deltas foldl_applyDelta_fields disconnectedCallback_def
           split: stream_end.splits option.splits prod.splits)+

lemma processStream_snd:
  "snd (processStream parse b i w) =
     (case b of None \<Rightarrow> w
      | Some bd \<Rightarrow> snd (snd (readLoop parse i (events bd) (ending bd) ([], w))))"
  by (simp add: processStream_def split: option.splits prod.splits)

lemma processStream_fields:
  "tenantId (snd (processStream parse b i w)) = tenantId w"
  "apiBaseUrl (snd (processStream parse b i w)) = apiBaseUrl w"
  "error (snd (processStream parse b i w)) = error w"
  "inputValue (snd (processStream parse b i w)) = inputValue w"
  "session (snd (processStream parse b i w)) = session w"
  "calls (snd (processStream parse b i w)) = calls w"
  "length (messages (snd (processStream parse b i w))) = length (messages w)"
  "take i (messages (snd (processStream parse b i w))) = take i (messages w)"
  "map role (messages (snd (processStream parse b i w))) = map role (messages w)"
  by (simp_all add: processStream_snd readLoop_fields split: option.splits)

text \<open>A list that agrees with \<open>ms @ [m]\<close> in length, in its first \<open>length ms\<close> entries and
  in its roles is \<open>ms\<close> followed by \<open>m\<close> with some content.\<close>

lemma placeholder_kept:
  assumes len: "length ms' = Suc (length ms)"
    and pre: "take (length ms) ms' = ms"
    and roles: "map role ms' = map role (ms @ [m])"
  shows "ms' = ms @ [\<lparr>role = role m, content = content (last ms')\<rparr>]"
proof -
  from len have ne: "ms' \<noteq> []" by auto
  from len pre have bl: "butlast ms' = ms"
    by (metis butlast_conv_take diff_Suc_1)
  from roles ne have "role (last ms') = role m"
    by (metis last_map last_snoc map_is_Nil_conv)
  then have "last ms' = \<lparr>role = role m, content = content (last ms')\<rparr>"
    by (cases "last ms'") simp
  with ne bl show ?thesis
    by (metis append_butlast_last_id)
qed

lemma streamMessage_fields:
  "tenantId (snd (streamMessage parse srv tid tx w)) = tenantId w"
  "apiBaseUrl (snd (streamMessage parse srv tid tx w)) = apiBaseUrl w"
  "error (snd (streamMessage parse srv tid tx w)) = error w"
  "inputValue (snd (streamMessage parse srv tid tx w)) = inputValue w"
  "session (snd (streamMessage parse srv tid tx w)) = session w"
  "calls (snd (streamMessage parse srv tid tx w))
     = calls w @ [SendMessageStreamCall (apiBaseUrl w) (tenantId w) tid tx]"
  by (simp_all add: streamMessage_def Let_def processStream_fields split: sum.splits)

text \<open>Whatever the stream delivers, the streaming step adds one assistant message at the
  end of the list and leaves the messages before it as they were.\<close>

lemma streamMessage_messages:
  "\<exists>c. messages (snd (streamMessage parse srv tid tx w))
        = messages w @ [\<lparr>role = Assistant, content = c\<rparr>]"
proof (cases "sendMessageStream (sendReply srv (length (filter is_send (calls w))))")
  case (Inl e)
  then show ?thesis by (simp add: streamMessage_def Let_def)
next
  case (Inr b)
  let ?w2 = "w\<lparr>messages := messages w @ [\<lparr>role = Assistant, content = []\<rparr>],
               calls := calls w @ [SendMessageStreamCall (apiBaseUrl w) (tenantId w) tid tx]\<rparr>"
  let ?ms' = "messages (snd (processStream parse b (length (messages w)) ?w2))"
  have "?ms' = messages w @ [\<lparr>role = role \<lparr>role = Assistant, content = []\<rparr>,
                              content = content (last ?ms')\<rparr>]"
    by (rule placeholder_kept) (simp_all add: processStream_fields)
  with Inr show ?thesis
    by (auto simp: streamMessage_def Let_def)
qed

lemma ok_not_404: "ok st \<Longrightarrow> st \<noteq> 404"
  by (auto simp: ok_def)

lemma streamMessage_expired:
  assumes "sendReply srv (length (filter is_send (calls w))) = SendReplied 404 txt b"
  shows "streamMessage parse srv tid tx w =
           (Some (ApiError 404 ''Thread expired or not found''),
            w\<lparr>messages := messages w @ [\<lparr>role = Assistant, content = []\<rparr>],
              calls := calls w @ [SendMessageStreamCall (apiBaseUrl w) (tenantId w) tid tx]\<rparr>)"
  using assms by (simp add: streamMessage_def Let_def sendMessageStream_def)

lemma streamMessage_chunks:
  assumes "sendReply srv (length (filter is_send (calls w)))
             = SendReplied st txt (Some \<lparr>events = map Chunk chunks, ending = fin\<rparr>)"
    and "ok st"
  shows "fst (streamMessage parse srv tid tx w)
           = (case fin of StreamDone \<Rightarrow> None | ReadError e \<Rightarrow> Some e)"
    and "messages (snd (streamMessage parse srv tid tx w))
           = messages w @ [\<lparr>role = Assistant, content = concat (streamDeltas parse chunks)\<rparr>]"
  using assms ok_not_404 [OF assms(2)]
  by (simp_all add: streamMessage_def Let_def sendMessageStream_def processStream_chunks
      foldl_applyDelta)

lemma streamMessage_teardown:
  assumes "sendReply srv (length (filter is_send (calls w)))
             = SendReplied st txt (Some \<lparr>events = map Chunk chunks @ Teardown # later, ending = fin\<rparr>)"
    and "ok st"
    and "abortController w = Some a"
  shows "fst (streamMessage parse srv tid tx w) = Some AbortError"
    and "messages (snd (streamMessage parse srv tid tx w))
           = messages w @ [\<lparr>role = Assistant, content = concat (streamDeltas parse chunks)\<rparr>]"
  using assms ok_not_404 [OF assms(2)]
  by (simp_all add: streamMessage_def Let_def sendMessageStream_def processStream_def
      readLoop_chunks foldl_applyDelta disconnectedCallback_def split: prod.splits)

lemma createThread_threadId:
  "createThread reply = Inr thread \<Longrightarrow> truthy (get_prop thread ''threadId'')"
  by (auto simp: createThread_def split: create_reply.splits sum.splits if_splits option.splits)

lemma createAndStore_fields:
  "tenantId (snd (createAndStore srv w)) = tenantId w"
  "apiBaseUrl (snd (createAndStore srv w)) = apiBaseUrl w"
  "messages (snd (createAndStore srv w)) = messages w"
  "error (snd (createAndStore srv w)) = error w"
  "inputValue (snd (createAndStore srv w)) = inputValue w"
  "abortController (snd (createAndStore srv w)) = abortController w"
  "calls (snd (createAndStore srv w)) = calls w @ [CreateThreadCall (apiBaseUrl w) (tenantId w)]"
  by (simp_all add: createAndStore_def Let_def split: sum.splits)

lemma resolveThread_cases:
  "resolveThread srv w = (if threadStored w
     then (Inr (the (projr (getThreadId (session w) (tenantId w)))), w)
     else createAndStore srv w)"
  using getThreadId_returns [of "session w" "tenantId w"]
  by (auto simp: resolveThread_def threadStored_def split: sum.splits option.splits)

lemma resolveThread_fields:
  "tenantId (snd (resolveThread srv w)) = tenantId w"
  "apiBaseUrl (snd (resolveThread srv w)) = apiBaseUrl w"
  "messages (snd (resolveThread srv w)) = messages w"
  "error (snd (resolveThread srv w)) = error w"
  "inputValue (snd (resolveThread srv w)) = inputValue w"
  "abortController (snd (resolveThread srv w)) = abortController w"
  "calls (snd (resolveThread srv w))
     = (if threadStored w then calls w
        else calls w @ [CreateThreadCall (apiBaseUrl w) (tenantId w)])"
  by (simp_all add: resolveThread_cases createAndStore_fields)

lemma resolveThread_created:
  assumes "\<not> threadStored w"
    and "createThread (createReply srv (length (filter is_create (calls w)))) = Inr thread"
  shows "fst (resolveThread srv w) = Inr (to_string_opt (get_prop thread ''threadId''))"
    and "accessible (session w) \<Longrightarrow> \<not> quotaExceeded (session w) \<Longrightarrow>
         getThreadId (session (snd (resolveThread srv w))) (tenantId w)
           = Inr (Some (to_string_opt (get_prop thread ''threadId'')))"
  using assms createThread_threadId [OF assms(2)]
  by (simp_all add: resolveThread_cases createAndStore_def Let_def setThreadId_def setItem_def
      getThreadId_def getItem_def)

lemma acceptSubmission_fields:
  "tenantId (acceptSubmission tx w) = tenantId w"
  "apiBaseUrl (acceptSubmission tx w) = apiBaseUrl w"
  "messages (acceptSubmission tx w) = messages w @ [\<lparr>role = User, content = tx\<rparr>]"
  "error (acceptSubmission tx w) = None"
  "inputValue (acceptSubmission tx w) = []"
  "abortController (acceptSubmission tx w) = Some False"
  "session (acceptSubmission tx w) = session w"
  "calls (acceptSubmission tx w) = calls w"
  by (simp_all add: acceptSubmission_def)

lemma threadStored_accept:
  "threadStored (acceptSubmission tx w) = threadStored w"
  by (simp add: threadStored_def acceptSubmission_fields)

lemma resolveThread_accept:
  "fst (resolveThread srv (acceptSubmission tx w)) = fst (resolveThread srv w)"
  "session (snd (resolveThread srv (acceptSubmission tx w))) = session (snd (resolveThread srv w))"
  by (simp_all add: resolveThread_cases createAndStore_def Let_def acceptSubmission_fields
      threadStored_accept split: sum.splits)

lemma finallyBlock_fields:
  "isStreaming (finallyBlock w) = False"
  "abortController (finallyBlock w) = None"
  "tenantId (finallyBlock w) = tenantId w"
  "apiBaseUrl (finallyBlock w) = apiBaseUrl w"
  "messages (finallyBlock w) = messages w"
  "error (finallyBlock w) = error w"
  "inputValue (finallyBlock w) = inputValue w"
  "session (finallyBlock w) = session w"
  "calls (finallyBlock w) = calls w"
  by (simp_all add: finallyBlock_def)

lemma catchBlock_fields:
  "tenantId (catchBlock e w) = tenantId w"
  "apiBaseUrl (catchBlock e w) = apiBaseUrl w"
  "messages (catchBlock e w) = messages w"
  "inputValue (catchBlock e w) = inputValue w"
  "session (catchBlock e w) = session w"
  "calls (catchBlock e w) = calls w"
  "isStreaming (catchBlock e w) = isStreaming w"
  "abortController (catchBlock e w) = abortController w"
  by (simp_all add: catchBlock_def)

lemma sendMessage_settles:
  assumes "accepted w"
  shows "\<exists>w'. sendMessage parse srv w = finallyBlock w'"
proof -
  let ?tx = "trim (inputValue w)"
  obtain r w2 where res: "resolveThread srv (acceptSubmission ?tx w) = (r, w2)"
    by (cases "resolveThread srv (acceptSubmission ?tx w)")
  show ?thesis
  proof (cases r)
    case (Inl e)
    with res sendMessage_resolve_failed [OF assms, of srv e w2 parse] show ?thesis by blast
  next
    case (Inr tid)
    obtain r' w3 where str: "streamMessage parse srv tid ?tx w2 = (r', w3)"
      by (cases "streamMessage parse srv tid ?tx w2")
    show ?thesis
    proof (cases r')
      case None
      with res Inr str sendMessage_completed [OF assms, of srv tid w2 parse w3]
      show ?thesis by blast
    next
      case (Some e)
      show ?thesis
      proof (cases "is_ApiError_404 e")
        case True
        obtain ss where "clearThreadId (session w3) (tenantId w3) = Inr ss"
          using clearThreadId_returns by blast
        with res Inr str Some True
          sendMessage_expired [OF assms, of srv tid w2 parse e w3 ss]
        show ?thesis by blast
      next
        case False
        with res Inr str Some sendMessage_failed [OF assms, of srv tid w2 parse e w3]
        show ?thesis by blast
      qed
    qed
  qed
qed

lemma clear_then_get: "clearThreadId ss t = Inr ss' \<Longrightarrow> getThreadId ss' t = Inr None"
  by (auto simp: clearThreadId_def removeItem_def getThreadId_def getItem_def split: if_splits)

text \<open>The state in which the streaming step starts, for a submission whose thread
  resolution gives the id \<open>tid\<close>.\<close>

lemma resolved_state:
  assumes "fst (resolveThread srv w) = Inr tid"
  defines "w2 \<equiv> snd (resolveThread srv (acceptSubmission (trim (inputValue w)) w))"
  shows "resolveThread srv (acceptSubmission (trim (inputValue w)) w) = (Inr tid, w2)"
    and "tenantId w2 = tenantId w"
    and "apiBaseUrl w2 = apiBaseUrl w"
    and "messages w2 = messages w @ [\<lparr>role = User, content = trim (inputValue w)\<rparr>]"
    and "error w2 = None"
    and "inputValue w2 = []"
    and "abortController w2 = Some False"
    and "calls w2 = calls w @ (if threadStored w then []
                              else [CreateThreadCall (apiBaseUrl w) (tenantId w)])"
    and "length (filter is_send (calls w2)) = length (filter is_send (calls w))"
proof -
  show "resolveThread srv (acceptSubmission (trim (inputValue w)) w) = (Inr tid, w2)"
    using assms(1) resolveThread_accept(1) [of srv "trim (inputValue w)" w]
    by (simp add: w2_def prod_eq_iff)
qed (simp_all add: w2_def resolveThread_fields acceptSubmission_fields threadStored_accept)

text \<open>The transport calls of an accepted submission: those of the thread resolution, then
  at most one streaming call.\<close>

lemma sendMessage_calls:
  assumes "accepted w"
  shows "\<exists>sends. calls (sendMessage parse srv w)
           = calls (snd (resolveThread srv (acceptSubmission (trim (inputValue w)) w))) @ sends
         \<and> list_all is_send sends \<and> length sends \<le> 1"
proof -
  let ?tx = "trim (inputValue w)"
  obtain r w2 where res: "resolveThread srv (acceptSubmission ?tx w) = (r, w2)"
    by (cases "resolveThread srv (acceptSubmission ?tx w)")
  show ?thesis
  proof (cases r)
    case (Inl e)
    with res sendMessage_resolve_failed [OF assms, of srv e w2 parse] show ?thesis
      by (simp add: finallyBlock_fields catchBlock_fields)
  next
    case (Inr tid)
    obtain r' w3 where str: "streamMessage parse srv tid ?tx w2 = (r', w3)"
      by (cases "streamMessage parse srv tid ?tx w2")
    have c3: "calls w3 = calls w2 @ [SendMessageStreamCall (apiBaseUrl w2) (tenantId w2) tid ?tx]"
      using streamMessage_fields(6) [of parse srv tid ?tx w2] str by simp
    obtain ss where cl: "clearThreadId (session w3) (tenantId w3) = Inr ss"
      using clearThreadId_returns by blast
    have "calls (sendMessage parse srv w) = calls w3"
    proof (cases r')
      case None
      with res Inr str sendMessage_completed [OF assms, of srv tid w2 parse w3]
      show ?thesis by (simp add: finallyBlock_fields)
    next
      case (Some e)
      show ?thesis
      proof (cases "is_ApiError_404 e")
        case True
        with res Inr str Some cl sendMessage_expired [OF assms, of srv tid w2 parse e w3 ss]
        show ?thesis by (simp add: finallyBlock_fields)
      next
        case False
        with res Inr str Some sendMessage_failed [OF assms, of srv tid w2 parse e w3]
        show ?thesis by (simp add: finallyBlock_fields catchBlock_fields)
      qed
    qed
    with res c3 show ?thesis by simp
  qed
qed

lemma sends_are_not_creates: "list_all is_send sends \<Longrightarrow> filter is_create sends = []"
  by (induction sends) (auto elim: is_send.elims)

subsection \<open>The examples\<close>

lemma accepted_idle_hi: "accepted idle_hi"
  by (simp add: accepted_def idle_hi_def trim_def isWhiteSpace_def)

lemma accepted_idle_hi_unset: "accepted idle_hi_unset"
  by (simp add: accepted_def idle_hi_unset_def idle_hi_def trim_def isWhiteSpace_def)

lemma trim_idle_hi: "trim (inputValue idle_hi) = ''hi''"
  by (simp add: idle_hi_def trim_def isWhiteSpace_def)

lemma trim_idle_hi_unset: "trim (inputValue idle_hi_unset) = ''hi''"
  by (simp add: idle_hi_unset_def idle_hi_def trim_def isWhiteSpace_def)

lemma threadStored_idle_hi: "threadStored idle_hi"
  by (simp add: threadStored_def getThreadId_def getItem_def idle_hi_def)

lemma threadStored_idle_hi_unset: "\<not> threadStored idle_hi_unset"
  by (simp add: threadStored_def getThreadId_def getItem_def idle_hi_unset_def idle_hi_def)

lemma resolve_idle_hi: "fst (resolveThread srv idle_hi) = Inr ''t-old''"
  by (simp add: resolveThread_def getThreadId_def getItem_def idle_hi_def)

lemma createThread_new_thread:
  "createThread new_thread
     = Inr (JObject [(''threadId'', JString ''t-new''), (''tenantId'', JString ''acme''),
                     (''expiresAt'', JString ''2026-01-01T00:00:00Z'')])"
  by (simp add: createThread_def new_thread_def ok_def)

lemma resolve_idle_hi_unset: "fst (resolveThread server_ok idle_hi_unset) = Inr ''t-new''"
proof -
  have "createThread (createReply server_ok (length (filter is_create (calls idle_hi_unset))))
      = Inr (JObject [(''threadId'', JString ''t-new''), (''tenantId'', JString ''acme''),
                     (''expiresAt'', JString ''2026-01-01T00:00:00Z'')])"
    by (simp add: server_ok_def createThread_new_thread)
  from resolveThread_created(1) [OF threadStored_idle_hi_unset this] show ?thesis
    by simp
qed

lemma hello_deltas_concat:
  \<open>concat (streamDeltas JSON_parse
     [''data: {"type":"text-delta","delta":"Hel"}\<newline>'',
      ''data: {"type":"text-delta","delta":"lo"}\<newline>'']) = ''Hello''\<close>
  by (simp add: hello_deltas)

lemma hel_deltas:
  \<open>streamDeltas JSON_parse [''data: {"type":"text-delta","delta":"Hel"}\<newline>''] = [''Hel'']\<close>
  by code_simp

section \<open>Properties of the lifecycle\<close>

subsection \<open>The streaming resource is released\<close>

text \<open>
  Claim C10 says that after every invocation of the submit operation \<^verbatim>\<open>isStreaming\<close> is
  false and \<^verbatim>\<open>abortController\<close> is \<^verbatim>\<open>null\<close>. An invocation made while a stream is in
  flight returns at the guard, before the \<^verbatim>\<open>try\<close> and so without its \<^verbatim>\<open>finally\<close>: it
  leaves \<^verbatim>\<open>isStreaming\<close> true and the abort controller of the submission in flight in
  place. Below, the component streams the answer to "hi" when a second text is submitted.
  The recovery path makes such an invocation itself (\<open>retry_is_skipped\<close>).
\<close>

theorem submit_while_streaming_keeps_flag:
  "isStreaming (sendMessage JSON_parse server_ok (chat_hi\<lparr>inputValue := ''again''\<rparr>))
   \<and> abortController (sendMessage JSON_parse server_ok (chat_hi\<lparr>inputValue := ''again''\<rparr>))
       = Some False"
proof -
  have "\<not> accepted (chat_hi\<lparr>inputValue := ''again''\<rparr>)"
    by (simp add: accepted_def chat_hi_def)
  then have "sendMessage JSON_parse server_ok (chat_hi\<lparr>inputValue := ''again''\<rparr>)
             = chat_hi\<lparr>inputValue := ''again''\<rparr>"
    by (rule sendMessage_rejected)
  then show ?thesis by (simp add: chat_hi_def)
qed

text \<open>
  Claim C10, as amended. A submission that passes the guard ends, on every path (a
  completed stream, a failure of the thread creation or of the streaming call, a malformed
  response, an abort, the recovery from an expired thread), with \<^verbatim>\<open>isStreaming\<close> false and
  \<^verbatim>\<open>abortController\<close> \<^verbatim>\<open>null\<close>. An invocation that the guard turns away changes nothing:
  made at rest it leaves the component at rest, made while a stream is in flight it leaves
  the flag and the abort controller to the submission in flight, whose own \<^verbatim>\<open>finally\<close>
  releases them.
\<close>

theorem submission_releases_stream:
  "(accepted w \<longrightarrow>
      \<not> isStreaming (sendMessage parse srv w) \<and> abortController (sendMessage parse srv w) = None)
   \<and> (\<not> accepted w \<longrightarrow> sendMessage parse srv w = w)
   \<and> (accepted w \<or> (\<not> isStreaming w \<and> abortController w = None) \<longrightarrow>
      \<not> isStreaming (sendMessage parse srv w) \<and> abortController (sendMessage parse srv w) = None)"
proof -
  have acc: "\<not> isStreaming (sendMessage parse srv w)
             \<and> abortController (sendMessage parse srv w) = None" if "accepted w"
  proof -
    from that obtain w' where "sendMessage parse srv w = finallyBlock w'"
      using sendMessage_settles by blast
    then show ?thesis by (simp add: finallyBlock_fields)
  qed
  have rej: "sendMessage parse srv w = w" if "\<not> accepted w"
    using that by (rule sendMessage_rejected)
  from acc rej show ?thesis by (cases "accepted w") simp_all
qed

theorem submission_releases_stream_witness:
  "accepted idle_hi
   \<and> \<not> isStreaming (sendMessage JSON_parse server_ok idle_hi)
   \<and> abortController (sendMessage JSON_parse server_ok idle_hi) = None
   \<and> \<not> accepted (chat_hi\<lparr>inputValue := ''again''\<rparr>)
   \<and> sendMessage JSON_parse server_ok (chat_hi\<lparr>inputValue := ''again''\<rparr>)
       = chat_hi\<lparr>inputValue := ''again''\<rparr>"
proof -
  have rej: "\<not> accepted (chat_hi\<lparr>inputValue := ''again''\<rparr>)"
    by (simp add: accepted_def chat_hi_def)
  from submission_releases_stream [of idle_hi JSON_parse server_ok]
    submission_releases_stream [of "chat_hi\<lparr>inputValue := ''again''\<rparr>" JSON_parse server_ok]
    accepted_idle_hi rej
  show ?thesis by simp
qed

subsection \<open>A completed turn\<close>

text \<open>
  Claim C4. A submission is accepted when its text, the input without the white space
  around it, is not empty, no stream is in flight, and tenant id and base URL are set. When
  its thread resolves and its streaming call is answered with a success status and a body
  that ends normally (or with no body at all), the message list has grown by exactly two
  entries: first the user message with that text, then the assistant message, holding the
  concatenated deltas; no error is set and the component is at rest.
\<close>

theorem completed_submission_adds_two_messages:
  assumes "accepted w"
    and "fst (resolveThread srv w) = Inr tid"
    and "sendReply srv (length (filter is_send (calls w))) = SendReplied st txt b"
    and "ok st"
    and "b = None \<and> chunks = [] \<or> b = Some \<lparr>events = map Chunk chunks, ending = StreamDone\<rparr>"
  shows "messages (sendMessage parse srv w)
           = messages w @ [\<lparr>role = User, content = trim (inputValue w)\<rparr>,
                           \<lparr>role = Assistant, content = concat (streamDeltas parse chunks)\<rparr>]
         \<and> error (sendMessage parse srv w) = None
         \<and> \<not> isStreaming (sendMessage parse srv w)"
proof -
  let ?tx = "trim (inputValue w)"
  define w2 where "w2 = snd (resolveThread srv (acceptSubmission ?tx w))"
  note rs = resolved_state [OF assms(2), folded w2_def]
  have rep: "sendReply srv (length (filter is_send (calls w2))) = SendReplied st txt b"
    using assms(3) by (simp add: rs(9))
  obtain r w3 where str: "streamMessage parse srv tid ?tx w2 = (r, w3)"
    by (cases "streamMessage parse srv tid ?tx w2")
  have "r = None \<and> messages w3
          = messages w2 @ [\<lparr>role = Assistant, content = concat (streamDeltas parse chunks)\<rparr>]"
  proof (cases b)
    case None
    with assms(5) have "chunks = []" by simp
    with None rep str ok_not_404 [OF assms(4)] assms(4) show ?thesis
      by (auto simp: streamMessage_def Let_def sendMessageStream_def processStream_def
          streamDeltas_def)
  next
    case (Some bd)
    with assms(5) have "b = Some \<lparr>events = map Chunk chunks, ending = StreamDone\<rparr>" by simp
    with rep streamMessage_chunks [of srv w2 st "txt" chunks StreamDone, OF _ assms(4), of parse tid ?tx]
      str
    show ?thesis by simp
  qed
  then have r: "r = None" and m3: "messages w3
          = messages w2 @ [\<lparr>role = Assistant, content = concat (streamDeltas parse chunks)\<rparr>]"
    by simp_all
  have e3: "error w3 = None"
    using streamMessage_fields(3) [of parse srv tid ?tx w2] str by (simp add: rs)
  have "sendMessage parse srv w = finallyBlock w3"
    by (rule sendMessage_completed [OF assms(1) rs(1)]) (simp add: str r)
  then show ?thesis
    by (simp add: finallyBlock_def m3 e3 rs)
qed

theorem completed_submission_adds_two_messages_witness:
  "accepted idle_hi_unset
   \<and> fst (resolveThread server_ok idle_hi_unset) = Inr ''t-new''
   \<and> sendReply server_ok (length (filter is_send (calls idle_hi_unset)))
       = SendReplied 200 (Inr []) (Some hello_body)
   \<and> ok 200
   \<and> messages (sendMessage JSON_parse server_ok idle_hi_unset)
       = [\<lparr>role = User, content = ''hi''\<rparr>, \<lparr>role = Assistant, content = ''Hello''\<rparr>]
   \<and> error (sendMessage JSON_parse server_ok idle_hi_unset) = None
   \<and> \<not> isStreaming (sendMessage JSON_parse server_ok idle_hi_unset)"
proof -
  have rep: "sendReply server_ok (length (filter is_send (calls idle_hi_unset)))
       = SendReplied 200 (Inr []) (Some hello_body)"
    by (simp add: server_ok_def)
  have ok: "ok 200" by (simp add: ok_def)
  have b: \<open>Some hello_body = None
        \<and> [''data: {"type":"text-delta","delta":"Hel"}\<newline>'',
           ''data: {"type":"text-delta","delta":"lo"}\<newline>''] = []
      \<or> Some hello_body
        = Some \<lparr>events = map Chunk [''data: {"type":"text-delta","delta":"Hel"}\<newline>'',
                                     ''data: {"type":"text-delta","delta":"lo"}\<newline>''],
                ending = StreamDone\<rparr>\<close>
    by (simp add: hello_body_def)
  from completed_submission_adds_two_messages
    [OF accepted_idle_hi_unset resolve_idle_hi_unset rep ok b, where parse = JSON_parse]
    accepted_idle_hi_unset resolve_idle_hi_unset rep ok
  show ?thesis
    by (simp only: hello_deltas_concat trim_idle_hi_unset)
       (simp add: idle_hi_unset_def idle_hi_def)
qed

subsection \<open>Thread creation\<close>

text \<open>
  Claim C5. An accepted submission for which the storage holds no usable thread id
  (nothing, the empty text or the text \<^verbatim>\<open>undefined\<close>) issues exactly one \<^verbatim>\<open>createThread\<close>
  call, before any streaming call; with a usable id stored it issues none. In both cases
  every other call of the submission is a streaming call. When the creation succeeds and
  the storage takes writes, the id returned is in the storage once the thread is resolved,
  before the streaming call is made.
\<close>

theorem createThread_only_without_stored_thread:
  assumes "accepted w"
  shows "(\<exists>sends. calls (sendMessage parse srv w)
             = calls w
               @ (if threadStored w then [] else [CreateThreadCall (apiBaseUrl w) (tenantId w)])
               @ sends
           \<and> list_all is_send sends)
         \<and> length (filter is_create (calls (sendMessage parse srv w)))
             = length (filter is_create (calls w)) + (if threadStored w then 0 else 1)
         \<and> (\<not> threadStored w \<longrightarrow>
             (\<forall>thread.
                createThread (createReply srv (length (filter is_create (calls w)))) = Inr thread
                \<longrightarrow> accessible (session w) \<longrightarrow> \<not> quotaExceeded (session w) \<longrightarrow>
                getThreadId
                  (session (snd (resolveThread srv (acceptSubmission (trim (inputValue w)) w))))
                  (tenantId w)
                = Inr (Some (to_string_opt (get_prop thread ''threadId'')))))"
proof -
  let ?tx = "trim (inputValue w)"
  from sendMessage_calls [OF assms, of parse srv]
  have ex: "\<exists>sends. calls (sendMessage parse srv w)
             = calls w
               @ (if threadStored w then [] else [CreateThreadCall (apiBaseUrl w) (tenantId w)])
               @ sends
           \<and> list_all is_send sends"
    by (auto simp: resolveThread_fields acceptSubmission_fields threadStored_accept)
  then have "length (filter is_create (calls (sendMessage parse srv w)))
             = length (filter is_create (calls w)) + (if threadStored w then 0 else 1)"
    by (auto simp: sends_are_not_creates)
  moreover note ex
  moreover have "getThreadId (session (snd (resolveThread srv (acceptSubmission ?tx w))))
                  (tenantId w)
                = Inr (Some (to_string_opt (get_prop thread ''threadId'')))"
    if "\<not> threadStored w"
      and "createThread (createReply srv (length (filter is_create (calls w)))) = Inr thread"
      and "accessible (session w)" and "\<not> quotaExceeded (session w)" for thread
    using resolveThread_created(2) [OF that(1,2,3,4)]
    by (simp add: resolveThread_accept)
  ultimately show ?thesis by blast
qed

theorem createThread_only_without_stored_thread_witness:
  "accepted idle_hi_unset
   \<and> \<not> threadStored idle_hi_unset
   \<and> (\<exists>sends. calls (sendMessage JSON_parse server_ok idle_hi_unset)
                = CreateThreadCall ''https://api.example'' ''acme'' # sends
              \<and> list_all is_send sends)
   \<and> length (filter is_create (calls (sendMessage JSON_parse server_ok idle_hi_unset))) = 1
   \<and> getThreadId
        (session (snd (resolveThread server_ok (acceptSubmission ''hi'' idle_hi_unset)))) ''acme''
      = Inr (Some ''t-new'')"
proof -
  have acc: "accessible (session idle_hi_unset)" "\<not> quotaExceeded (session idle_hi_unset)"
    by (simp_all add: idle_hi_unset_def)
  have cr: "createThread (createReply server_ok (length (filter is_create (calls idle_hi_unset))))
      = Inr (JObject [(''threadId'', JString ''t-new''), (''tenantId'', JString ''acme''),
                     (''expiresAt'', JString ''2026-01-01T00:00:00Z'')])"
    by (simp add: server_ok_def createThread_new_thread)
  from createThread_only_without_stored_thread
    [OF accepted_idle_hi_unset, of JSON_parse server_ok]
    accepted_idle_hi_unset threadStored_idle_hi_unset acc cr
  show ?thesis
    by (simp add: trim_idle_hi_unset) (simp add: idle_hi_unset_def idle_hi_def)
qed

subsection \<open>Teardown during a stream\<close>

text \<open>
  Claim C8. When the element is removed from the page while a chunk is awaited,
  \<^verbatim>\<open>disconnectedCallback\<close> aborts the signal and the pending read rejects with
  \<^verbatim>\<open>AbortError\<close>. The deltas of the chunks received before stay in the assistant message,
  the error field is not set, and the component is at rest, with \<^verbatim>\<open>isStreaming\<close> false and
  no abort controller.
\<close>

theorem teardown_mid_stream_is_absorbed:
  assumes "accepted w"
    and "fst (resolveThread srv w) = Inr tid"
    and "sendReply srv (length (filter is_send (calls w)))
           = SendReplied st txt
               (Some \<lparr>events = map Chunk chunks @ Teardown # later, ending = fin\<rparr>)"
    and "ok st"
  shows "messages (sendMessage parse srv w)
           = messages w @ [\<lparr>role = User, content = trim (inputValue w)\<rparr>,
                           \<lparr>role = Assistant, content = concat (streamDeltas parse chunks)\<rparr>]
         \<and> error (sendMessage parse srv w) = None
         \<and> \<not> isStreaming (sendMessage parse srv w)
         \<and> abortController (sendMessage parse srv w) = None"
proof -
  let ?tx = "trim (inputValue w)"
  define w2 where "w2 = snd (resolveThread srv (acceptSubmission ?tx w))"
  note rs = resolved_state [OF assms(2), folded w2_def]
  have rep: "sendReply srv (length (filter is_send (calls w2)))
           = SendReplied st txt
               (Some \<lparr>events = map Chunk chunks @ Teardown # later, ending = fin\<rparr>)"
    using assms(3) by (simp add: rs(9))
  obtain r w3 where str: "streamMessage parse srv tid ?tx w2 = (r, w3)"
    by (cases "streamMessage parse srv tid ?tx w2")
  from streamMessage_teardown [OF rep assms(4) rs(7), of parse tid ?tx] str
  have r: "r = Some AbortError" and m3: "messages w3
          = messages w2 @ [\<lparr>role = Assistant, content = concat (streamDeltas parse chunks)\<rparr>]"
    by simp_all
  have e3: "error w3 = None"
    using streamMessage_fields(3) [of parse srv tid ?tx w2] str by (simp add: rs)
  have "sendMessage parse srv w = finallyBlock (catchBlock AbortError w3)"
    by (rule sendMessage_failed [OF assms(1) rs(1)]) (simp_all add: str r AbortError_def)
  then show ?thesis
    by (simp add: finallyBlock_def catchBlock_def AbortError_def m3 e3 rs)
qed

theorem teardown_mid_stream_is_absorbed_witness:
  "accepted idle_hi
   \<and> fst (resolveThread server_torn idle_hi) = Inr ''t-old''
   \<and> sendReply server_torn (length (filter is_send (calls idle_hi)))
       = SendReplied 200 (Inr []) (Some torn_body)
   \<and> ok 200
   \<and> messages (sendMessage JSON_parse server_torn idle_hi)
       = [\<lparr>role = User, content = ''hi''\<rparr>, \<lparr>role = Assistant, content = ''Hel''\<rparr>]
   \<and> error (sendMessage JSON_parse server_torn idle_hi) = None
   \<and> \<not> isStreaming (sendMessage JSON_parse server_torn idle_hi)
   \<and> abortController (sendMessage JSON_parse server_torn idle_hi) = None"
proof -
  have rep: \<open>sendReply server_torn (length (filter is_send (calls idle_hi)))
       = SendReplied 200 (Inr [])
           (Some \<lparr>events = map Chunk [''data: {"type":"text-delta","delta":"Hel"}\<newline>'']
                      @ Teardown # [Chunk ''data: {"type":"text-delta","delta":"lo"}\<newline>''],
                   ending = StreamDone\<rparr>)\<close>
    by (simp add: server_torn_def torn_body_def)
  have ok: "ok 200" by (simp add: ok_def)
  from teardown_mid_stream_is_absorbed
    [OF accepted_idle_hi resolve_idle_hi rep ok, where parse = JSON_parse]
    accepted_idle_hi resolve_idle_hi [of server_torn] rep ok
  show ?thesis
    by (simp only: hel_deltas trim_idle_hi)
       (simp add: idle_hi_def torn_body_def)
qed

subsection \<open>An expired thread\<close>

text \<open>
  Claim C1 expects, after a streaming call answered 404, exactly one further
  \<^verbatim>\<open>createThread\<close> and streaming call with the same text. The code clears the stored id and
  removes the placeholder, and its comment reads "Recursively retry once with fresh thread";
  but the retry is the call of \<^verbatim>\<open>_sendMessage\<close> that returns at the guard (see
  \<open>retry_is_skipped\<close>). What the submission does, whatever the server would answer to a
  second call: its only calls are those of the first attempt, the message list ends with
  the user message, the stored id is gone, the text is back in the input, and no error is
  set. The witness runs it against a server that would answer a second streaming call with
  success.
\<close>

theorem expired_send_is_not_retried:
  assumes "accepted w"
    and "fst (resolveThread srv w) = Inr tid"
    and "sendReply srv (length (filter is_send (calls w))) = SendReplied 404 txt b"
  shows "calls (sendMessage parse srv w)
           = calls w
             @ (if threadStored w then [] else [CreateThreadCall (apiBaseUrl w) (tenantId w)])
             @ [SendMessageStreamCall (apiBaseUrl w) (tenantId w) tid (trim (inputValue w))]
         \<and> messages (sendMessage parse srv w)
             = messages w @ [\<lparr>role = User, content = trim (inputValue w)\<rparr>]
         \<and> getThreadId (session (sendMessage parse srv w)) (tenantId w) = Inr None
         \<and> inputValue (sendMessage parse srv w) = trim (inputValue w)
         \<and> error (sendMessage parse srv w) = None
         \<and> \<not> isStreaming (sendMessage parse srv w)"
proof -
  let ?tx = "trim (inputValue w)"
  define w2 where "w2 = snd (resolveThread srv (acceptSubmission ?tx w))"
  note rs = resolved_state [OF assms(2), folded w2_def]
  define w3 where "w3 = w2\<lparr>messages := messages w2 @ [\<lparr>role = Assistant, content = []\<rparr>],
      calls := calls w2 @ [SendMessageStreamCall (apiBaseUrl w2) (tenantId w2) tid ?tx]\<rparr>"
  have str: "streamMessage parse srv tid ?tx w2
               = (Some (ApiError 404 ''Thread expired or not found''), w3)"
    unfolding w3_def using assms(3) by (intro streamMessage_expired) (simp add: rs(9))
  obtain ss where cl: "clearThreadId (session w3) (tenantId w3) = Inr ss"
    using clearThreadId_returns by blast
  have fin: "sendMessage parse srv w
               = finallyBlock (w3\<lparr>session := ss, messages := butlast (messages w3),
                                  inputValue := ?tx\<rparr>)"
    by (rule sendMessage_expired [OF assms(1) rs(1) str _ cl]) simp
  have t3: "tenantId w3 = tenantId w" by (simp add: w3_def rs)
  from clear_then_get [OF cl] have "getThreadId ss (tenantId w) = Inr None"
    by (simp add: t3)
  then show ?thesis
    by (simp add: fin finallyBlock_def w3_def rs butlast_append)
qed

theorem expired_send_is_not_retried_witness:
  "accepted idle_hi
   \<and> fst (resolveThread server_expired_once idle_hi) = Inr ''t-old''
   \<and> sendReply server_expired_once (length (filter is_send (calls idle_hi)))
       = SendReplied 404 (Inr ''Not Found'') None
   \<and> calls (sendMessage JSON_parse server_expired_once idle_hi)
       = [SendMessageStreamCall ''https://api.example'' ''acme'' ''t-old'' ''hi'']
   \<and> messages (sendMessage JSON_parse server_expired_once idle_hi)
       = [\<lparr>role = User, content = ''hi''\<rparr>]
   \<and> getThreadId (session (sendMessage JSON_parse server_expired_once idle_hi)) ''acme'' = Inr None
   \<and> inputValue (sendMessage JSON_parse server_expired_once idle_hi) = ''hi''
   \<and> error (sendMessage JSON_parse server_expired_once idle_hi) = None
   \<and> \<not> isStreaming (sendMessage JSON_parse server_expired_once idle_hi)"
proof -
  have rep: "sendReply server_expired_once (length (filter is_send (calls idle_hi)))
       = SendReplied 404 (Inr ''Not Found'') None"
    by (simp add: server_expired_once_def idle_hi_def)
  from expired_send_is_not_retried
    [OF accepted_idle_hi resolve_idle_hi rep, where parse = JSON_parse]
    accepted_idle_hi resolve_idle_hi [of server_expired_once] rep
  show ?thesis
    by (simp add: trim_idle_hi threadStored_idle_hi) (simp add: idle_hi_def)
qed

text \<open>
  Claim C3 expects that a thread reported expired on the first and on the retried attempt
  ends the turn with a user-visible error. Against a server that answers every streaming
  call with 404, the submission issues one streaming call and no second one, and ends at
  rest with the user message as the last message and with no error set: the turn fails
  without a word to the user.
\<close>

theorem repeated_expiry_sets_no_error:
  assumes "accepted w"
    and "fst (resolveThread srv w) = Inr tid"
    and "\<forall>n. \<exists>txt b. sendReply srv n = SendReplied 404 txt b"
  shows "length (filter is_send (calls (sendMessage parse srv w)))
           = Suc (length (filter is_send (calls w)))
         \<and> error (sendMessage parse srv w) = None
         \<and> \<not> isStreaming (sendMessage parse srv w)
         \<and> abortController (sendMessage parse srv w) = None
         \<and> messages (sendMessage parse srv w)
             = messages w @ [\<lparr>role = User, content = trim (inputValue w)\<rparr>]"
proof -
  let ?tx = "trim (inputValue w)"
  define w2 where "w2 = snd (resolveThread srv (acceptSubmission ?tx w))"
  note rs = resolved_state [OF assms(2), folded w2_def]
  from assms(3) obtain errorText b
    where rep: "sendReply srv (length (filter is_send (calls w2))) = SendReplied 404 errorText b"
    by blast
  define w3 where "w3 = w2\<lparr>messages := messages w2 @ [\<lparr>role = Assistant, content = []\<rparr>],
      calls := calls w2 @ [SendMessageStreamCall (apiBaseUrl w2) (tenantId w2) tid ?tx]\<rparr>"
  have str: "streamMessage parse srv tid ?tx w2
               = (Some (ApiError 404 ''Thread expired or not found''), w3)"
    unfolding w3_def using rep by (rule streamMessage_expired)
  obtain ss where cl: "clearThreadId (session w3) (tenantId w3) = Inr ss"
    using clearThreadId_returns by blast
  have fin: "sendMessage parse srv w
               = finallyBlock (w3\<lparr>session := ss, messages := butlast (messages w3),
                                  inputValue := ?tx\<rparr>)"
    by (rule sendMessage_expired [OF assms(1) rs(1) str _ cl]) simp
  show ?thesis
    by (simp add: fin finallyBlock_def w3_def rs butlast_append)
qed

theorem repeated_expiry_sets_no_error_witness:
  "accepted idle_hi
   \<and> fst (resolveThread server_expired idle_hi) = Inr ''t-old''
   \<and> (\<forall>n. sendReply server_expired n = SendReplied 404 (Inr ''Not Found'') None)
   \<and> length (filter is_send (calls (sendMessage JSON_parse server_expired idle_hi))) = 1
   \<and> error (sendMessage JSON_parse server_expired idle_hi) = None
   \<and> \<not> isStreaming (sendMessage JSON_parse server_expired idle_hi)
   \<and> abortController (sendMessage JSON_parse server_expired idle_hi) = None
   \<and> messages (sendMessage JSON_parse server_expired idle_hi) = [\<lparr>role = User, content = ''hi''\<rparr>]"
proof -
  have rep: "\<forall>n. \<exists>errorText b. sendReply server_expired n = SendReplied 404 errorText b"
    by (simp add: server_expired_def)
  from repeated_expiry_sets_no_error
    [OF accepted_idle_hi resolve_idle_hi rep, where parse = JSON_parse]
    accepted_idle_hi resolve_idle_hi [of server_expired]
  show ?thesis
    by (simp add: trim_idle_hi) (simp add: idle_hi_def server_expired_def)
qed

end
